theory Spec2Isabelle
  imports Main "HOL-Library.Word" "HOL-Library.Sublist"
begin

section \<open>JavaScript strings\<close>

text \<open>
  A JavaScript string is a sequence of UTF-16 code units; \<^verbatim>\<open>length\<close> and
  \<^verbatim>\<open>slice\<close> count code units. Literals of the source that are plain ASCII are
  written through \<open>ascii\<close>.
\<close>

type_synonym jschar = "16 word"
type_synonym jsstring = "jschar list"

definition ascii :: "string \<Rightarrow> jsstring" where
  "ascii s = map of_char s"

definition startsWith :: "jsstring \<Rightarrow> jsstring \<Rightarrow> bool" where
  "startsWith s p = (take (length p) s = p)"

definition slice :: "jsstring \<Rightarrow> nat \<Rightarrow> nat \<Rightarrow> jsstring" where
  "slice s a b = take (b - a) (drop a s)"

fun join :: "jsstring \<Rightarrow> jsstring list \<Rightarrow> jsstring" where
  "join sep [] = []"
| "join sep [s] = s"
| "join sep (s # t # ts) = s @ sep @ join sep (t # ts)"

text \<open>The decimal digits of an integer, with a minus sign when it is negative.\<close>

definition digit :: "nat \<Rightarrow> jschar" where
  "digit d = of_nat (48 + d)"

fun digits :: "nat \<Rightarrow> jsstring" where
  "digits n = (if n < 10 then [digit n] else digits (n div 10) @ [digit (n mod 10)])"

declare digits.simps [simp del]

definition decimal :: "int \<Rightarrow> jsstring" where
  "decimal i = (if i < 0 then ascii ''-'' @ digits (nat (- i)) else digits (nat i))"

text \<open>
  The numbers of the model are the integers from \<open>- 2\<^sup>5\<^sup>3\<close> to \<open>2\<^sup>5\<^sup>3 - 1\<close>,
  held in a word of 54 bits and read by \<open>sint\<close>. Each of them is a JavaScript
  number, and JavaScript writes each of them in plain decimal digits (it changes to the
  exponent form only from \<open>10\<^sup>2\<^sup>1\<close> on).
\<close>

type_synonym jsint = "54 word"

definition number_toString :: "jsint \<Rightarrow> jsstring" where
  "number_toString n = decimal (sint n)"

text \<open>
  A time value, as \<^verbatim>\<open>Date.now()\<close> returns it on a clock that is not set before
  1970: a natural number below \<open>2\<^sup>5\<^sup>3\<close> (the largest time value is
  \<open>8.64 \<times> 10\<^sup>1\<^sup>5\<close>). The difference of two time values lies strictly between
  \<open>- 2\<^sup>5\<^sup>3\<close> and \<open>2\<^sup>5\<^sup>3\<close>, so the subtraction of JavaScript is exact on
  them and the word subtraction below does not wrap.
\<close>

type_synonym jstime = "53 word"

definition js_minus :: "jstime \<Rightarrow> jstime \<Rightarrow> jsint" where
  "js_minus a b = ucast a - ucast b"

section \<open>JavaScript values and \<^verbatim>\<open>JSON.stringify\<close>\<close>

text \<open>
  The values a handler can pass to \<^verbatim>\<open>res.json\<close>. \<open>JNum\<close> carries the
  numbers of the model, \<open>JNaN\<close> the number NaN, \<open>JBigInt\<close> a BigInt of any
  size (which \<^verbatim>\<open>JSON.stringify\<close> refuses), \<open>JObj\<close> the enumerable own
  properties of a plain object in enumeration order. Other numbers (with a fraction,
  or beyond \<open>2\<^sup>5\<^sup>3\<close>), functions, symbols, objects with a \<^verbatim>\<open>toJSON\<close>
  method and cyclic objects are not represented.
\<close>

datatype jsvalue =
    JUndefined
  | JNull
  | JBool bool
  | JNum jsint
  | JNaN
  | JBigInt int
  | JStr jsstring
  | JArr "jsvalue list"
  | JObj "(jsstring \<times> jsvalue) list"

text \<open>
  A thrown value as the error handler reads it: its three properties
  \<^verbatim>\<open>status\<close>, \<^verbatim>\<open>statusCode\<close> and \<^verbatim>\<open>message\<close>,
  each \<open>JUndefined\<close> when the property is absent. The record stands for a truthy
  value such as an \<^verbatim>\<open>Error\<close> object: the framework treats only a truthy
  argument of \<^verbatim>\<open>next\<close> as an error.
\<close>

record js_error =
  status :: jsvalue
  statusCode :: jsvalue
  message :: jsvalue

definition TypeError :: "string \<Rightarrow> js_error" where
  "TypeError m = \<lparr>status = JUndefined, statusCode = JUndefined, message = JStr (ascii m)\<rparr>"

text \<open>ToBoolean, as \<^verbatim>\<open>if (x)\<close> and \<^verbatim>\<open>x || y\<close> apply it.\<close>

fun truthy :: "jsvalue \<Rightarrow> bool" where
  "truthy JUndefined = False"
| "truthy JNull = False"
| "truthy (JBool b) = b"
| "truthy (JNum n) = (n \<noteq> 0)"
| "truthy JNaN = False"
| "truthy (JBigInt n) = (n \<noteq> 0)"
| "truthy (JStr s) = (s \<noteq> [])"
| "truthy (JArr xs) = True"
| "truthy (JObj ps) = True"

definition js_or :: "jsvalue \<Rightarrow> jsvalue \<Rightarrow> jsvalue" where
  "js_or a b = (if truthy a then a else b)"

text \<open>ToString, as a template literal applies it to an inserted value.\<close>

fun toString :: "jsvalue \<Rightarrow> jsstring"
  and toString_elems :: "jsvalue list \<Rightarrow> jsstring list" where
  "toString JUndefined = ascii ''undefined''"
| "toString JNull = ascii ''null''"
| "toString (JBool b) = (if b then ascii ''true'' else ascii ''false'')"
| "toString (JNum n) = number_toString n"
| "toString JNaN = ascii ''NaN''"
| "toString (JBigInt n) = decimal n"
| "toString (JStr s) = s"
| "toString (JArr xs) = join (ascii '','') (toString_elems xs)"
| "toString (JObj ps) = ascii ''[object Object]''"
| "toString_elems [] = []"
| "toString_elems (x # xs) =
     (if x = JUndefined \<or> x = JNull then [] else toString x) # toString_elems xs"

text \<open>
  QuoteJSONString: the quote, the backslash and the control characters are escaped, a
  lone surrogate is written as a \<^verbatim>\<open>\u\<close> escape, every other code unit is
  copied.
\<close>

definition hex_digit :: "nat \<Rightarrow> jschar" where
  "hex_digit d = (if d < 10 then of_nat (48 + d) else of_nat (87 + d))"

definition unicode_escape :: "jschar \<Rightarrow> jsstring" where
  "unicode_escape c =
     [0x5C, 0x75] @ map (\<lambda>k. hex_digit (unat (drop_bit k c) mod 16)) [12, 8, 4, 0]"

definition is_high_surrogate :: "jschar \<Rightarrow> bool" where
  "is_high_surrogate c = (0xD800 \<le> c \<and> c \<le> 0xDBFF)"

definition is_low_surrogate :: "jschar \<Rightarrow> bool" where
  "is_low_surrogate c = (0xDC00 \<le> c \<and> c \<le> 0xDFFF)"

definition escape_unit :: "jschar \<Rightarrow> jsstring" where
  "escape_unit c =
     (if c = 0x22 then [0x5C, 0x22]
      else if c = 0x5C then [0x5C, 0x5C]
      else if c = 0x08 then [0x5C, 0x62]
      else if c = 0x0C then [0x5C, 0x66]
      else if c = 0x0A then [0x5C, 0x6E]
      else if c = 0x0D then [0x5C, 0x72]
      else if c = 0x09 then [0x5C, 0x74]
      else if c < 0x20 then unicode_escape c
      else [c])"

fun quote_units :: "jsstring \<Rightarrow> jsstring" where
  "quote_units [] = []"
| "quote_units [c] =
     (if is_high_surrogate c \<or> is_low_surrogate c then unicode_escape c else escape_unit c)"
| "quote_units (c # d # cs) =
     (if is_high_surrogate c \<and> is_low_surrogate d then c # d # quote_units cs
      else if is_high_surrogate c \<or> is_low_surrogate c
        then unicode_escape c @ quote_units (d # cs)
      else escape_unit c @ quote_units (d # cs))"

definition QuoteJSONString :: "jsstring \<Rightarrow> jsstring" where
  "QuoteJSONString s = [0x22] @ quote_units s @ [0x22]"

text \<open>
  \<^verbatim>\<open>JSON.stringify(v)\<close> with no replacer and no indentation: \<open>Inl\<close> is
  the TypeError it throws on a BigInt, \<open>Inr None\<close> the result
  \<^verbatim>\<open>undefined\<close>. In an array \<^verbatim>\<open>undefined\<close> becomes
  \<^verbatim>\<open>null\<close>; in an object the property is left out.
\<close>

fun JSON_stringify :: "jsvalue \<Rightarrow> js_error + jsstring option"
  and stringify_elems :: "jsvalue list \<Rightarrow> js_error + jsstring list"
  and stringify_props :: "(jsstring \<times> jsvalue) list \<Rightarrow> js_error + jsstring list" where
  "JSON_stringify JUndefined = Inr None"
| "JSON_stringify JNull = Inr (Some (ascii ''null''))"
| "JSON_stringify (JBool b) = Inr (Some (if b then ascii ''true'' else ascii ''false''))"
| "JSON_stringify (JNum n) = Inr (Some (number_toString n))"
| "JSON_stringify JNaN = Inr (Some (ascii ''null''))"
| "JSON_stringify (JBigInt n) = Inl (TypeError ''Do not know how to serialize a BigInt'')"
| "JSON_stringify (JStr s) = Inr (Some (QuoteJSONString s))"
| "JSON_stringify (JArr xs) =
     (case stringify_elems xs of
        Inl e \<Rightarrow> Inl e
      | Inr ss \<Rightarrow> Inr (Some (ascii ''['' @ join (ascii '','') ss @ ascii '']'')))"
| "JSON_stringify (JObj ps) =
     (case stringify_props ps of
        Inl e \<Rightarrow> Inl e
      | Inr ss \<Rightarrow> Inr (Some (ascii ''{'' @ join (ascii '','') ss @ ascii ''}'')))"
| "stringify_elems [] = Inr []"
| "stringify_elems (x # xs) =
     (case JSON_stringify x of
        Inl e \<Rightarrow> Inl e
      | Inr r \<Rightarrow>
          (case stringify_elems xs of
             Inl e \<Rightarrow> Inl e
           | Inr ss \<Rightarrow> Inr ((case r of None \<Rightarrow> ascii ''null'' | Some t \<Rightarrow> t) # ss)))"
| "stringify_props [] = Inr []"
| "stringify_props (p # ps) =
     (case JSON_stringify (snd p) of
        Inl e \<Rightarrow> Inl e
      | Inr r \<Rightarrow>
          (case stringify_props ps of
             Inl e \<Rightarrow> Inl e
           | Inr ss \<Rightarrow>
               Inr ((case r of
                       None \<Rightarrow> []
                     | Some t \<Rightarrow> [QuoteJSONString (fst p) @ ascii '':'' @ t]) @ ss)))"

text \<open>What a template literal inserts for the result of \<^verbatim>\<open>JSON.stringify\<close>.\<close>

definition template :: "jsstring option \<Rightarrow> jsstring" where
  "template r = (case r of None \<Rightarrow> ascii ''undefined'' | Some t \<Rightarrow> t)"

section \<open>Response logger (\<^verbatim>\<open>src/server/index.ts\<close>, lines 21-45)\<close>

text \<open>
  The variables the middleware closes over: \<^verbatim>\<open>start\<close>, \<^verbatim>\<open>path\<close>
  and \<^verbatim>\<open>capturedJsonResponse\<close>, which starts as \<^verbatim>\<open>undefined\<close>.
\<close>

record logger_closure =
  start :: jstime
  path :: jsstring
  capturedJsonResponse :: jsvalue

definition logger_middleware :: "jstime \<Rightarrow> jsstring \<Rightarrow> logger_closure" where
  "logger_middleware now req_path =
     \<lparr>start = now, path = req_path, capturedJsonResponse = JUndefined\<rparr>"

text \<open>
  The replacement of \<^verbatim>\<open>res.json\<close> (lines 27-30). The original function acts
  on the state \<open>'c\<close> of the connection to the client and either returns or throws;
  the argument \<open>args\<close> stands for the rest parameters. The body is recorded first,
  then the original is called with the same arguments and its result returned.
\<close>

definition res_json ::
  "(jsvalue \<Rightarrow> 'a \<Rightarrow> 'c \<Rightarrow> 'c \<times> (js_error + 'r)) \<Rightarrow> jsvalue \<Rightarrow> 'a \<Rightarrow>
     logger_closure \<times> 'c \<Rightarrow> (logger_closure \<times> 'c) \<times> (js_error + 'r)" where
  "res_json originalResJson bodyJson args s =
     (let l = (fst s)\<lparr>capturedJsonResponse := bodyJson\<rparr>;
          (c, r) = originalResJson bodyJson args (snd s)
      in ((l, c), r))"

text \<open>A handler that calls \<^verbatim>\<open>res.json\<close> several times, one call after the other.\<close>

fun res_json_calls ::
  "(jsvalue \<Rightarrow> 'a \<Rightarrow> 'c \<Rightarrow> 'c \<times> (js_error + 'r)) \<Rightarrow> (jsvalue \<times> 'a) list \<Rightarrow>
     logger_closure \<times> 'c \<Rightarrow> logger_closure \<times> 'c" where
  "res_json_calls originalResJson [] s = s"
| "res_json_calls originalResJson (call # calls) s =
     res_json_calls originalResJson calls
       (fst (res_json originalResJson (fst call) (snd call) s))"

text \<open>The same calls on a response whose \<^verbatim>\<open>json\<close> was never replaced.\<close>

fun original_calls ::
  "(jsvalue \<Rightarrow> 'a \<Rightarrow> 'c \<Rightarrow> 'c \<times> (js_error + 'r)) \<Rightarrow> (jsvalue \<times> 'a) list \<Rightarrow> 'c \<Rightarrow> 'c" where
  "original_calls originalResJson [] c = c"
| "original_calls originalResJson (call # calls) c =
     original_calls originalResJson calls (fst (originalResJson (fst call) (snd call) c))"

text \<open>
  An original \<^verbatim>\<open>json\<close> for the examples: it sends the body by appending it
  to the list of bodies the client has received, and returns.
\<close>

definition record_json :: "jsvalue \<Rightarrow> unit \<Rightarrow> jsvalue list \<Rightarrow> jsvalue list \<times> (js_error + unit)" where
  "record_json bodyJson args sent = (sent @ [bodyJson], Inr ())"

text \<open>
  The truncation marker. In \<^verbatim>\<open>src/server/index.ts\<close> (line 39) the literal is the
  three code units U+00E2, U+20AC, U+00A6; in the two earlier versions of the file
  (\<^verbatim>\<open>src/unnamed/part_000\<close> line 42, \<^verbatim>\<open>src/unnamed/part_001\<close> line 39) it is
  the single code unit U+2026, the horizontal ellipsis.
\<close>

definition marker_index :: jsstring where
  "marker_index = [0xE2, 0x20AC, 0xA6]"

definition marker_part_001 :: jsstring where
  "marker_part_001 = [0x2026]"

definition truncateLine :: "jsstring \<Rightarrow> jsstring \<Rightarrow> jsstring" where
  "truncateLine marker logLine =
     (if length logLine > 80 then slice logLine 0 79 @ marker else logLine)"

text \<open>Line 34: the line before the body is appended.\<close>

definition request_line :: "jsstring \<Rightarrow> jsstring \<Rightarrow> jsint \<Rightarrow> jsint \<Rightarrow> jsstring" where
  "request_line method req_path status_code duration =
     method @ ascii '' '' @ req_path @ ascii '' '' @ number_toString status_code
       @ ascii '' in '' @ number_toString duration @ ascii ''ms''"

text \<open>
  The \<^verbatim>\<open>finish\<close> listener (lines 31-43), run at time \<open>now\<close> for a request
  with the given method and final status code. The result is the list of lines passed
  to \<^verbatim>\<open>log\<close>, or the exception that leaves the listener.
\<close>

definition on_finish ::
  "jsstring \<Rightarrow> jstime \<Rightarrow> jsstring \<Rightarrow> jsint \<Rightarrow> logger_closure \<Rightarrow> js_error + jsstring list" where
  "on_finish marker now method status_code l =
     (let duration = js_minus now (start l) in
      if startsWith (path l) (ascii ''/api'') then
        (let logLine = request_line method (path l) status_code duration in
         if truthy (capturedJsonResponse l) then
           (case JSON_stringify (capturedJsonResponse l) of
              Inl e \<Rightarrow> Inl e
            | Inr r \<Rightarrow> Inr [truncateLine marker (logLine @ ascii '' :: '' @ template r)])
         else Inr [truncateLine marker logLine])
      else Inr [])"

definition finish_handler ::
  "jstime \<Rightarrow> jsstring \<Rightarrow> jsint \<Rightarrow> logger_closure \<Rightarrow> js_error + jsstring list" where
  "finish_handler = on_finish marker_index"

definition finish_handler_part_001 ::
  "jstime \<Rightarrow> jsstring \<Rightarrow> jsint \<Rightarrow> logger_closure \<Rightarrow> js_error + jsstring list" where
  "finish_handler_part_001 = on_finish marker_part_001"

text \<open>
  The logger in the pipeline (lines 10-45), for one request whose response finishes. The
  body parsers of lines 10-11 stand in front of the logger. When a parser rejects the
  body it calls \<^verbatim>\<open>next\<close> with an error, and the framework then skips every layer
  that is no error handler: the logger never runs for this request, \<^verbatim>\<open>json\<close> is
  not replaced and no \<^verbatim>\<open>finish\<close> listener is registered. Otherwise the layer of
  lines 14-19 sets its headers and calls \<^verbatim>\<open>next()\<close>, the logger runs at the time
  \<open>started\<close>, the layers behind it call \<^verbatim>\<open>json\<close> any number of times, and the
  listener runs at the time \<open>ended\<close> with the final status code.
\<close>

record 'a exchange =
  req_method :: jsstring
  req_path :: jsstring
  body_error :: "js_error option"
  started :: jstime
  json_calls :: "(jsvalue \<times> 'a) list"
  res_statusCode :: jsint
  ended :: jstime

definition request_log ::
  "(jsvalue \<Rightarrow> 'a \<Rightarrow> 'c \<Rightarrow> 'c \<times> (js_error + 'r)) \<Rightarrow> 'a exchange \<Rightarrow> 'c \<Rightarrow>
     js_error + jsstring list" where
  "request_log originalResJson x c =
     (case body_error x of
        Some e \<Rightarrow> Inr []
      | None \<Rightarrow>
          finish_handler (ended x) (req_method x) (res_statusCode x)
            (fst (res_json_calls originalResJson (json_calls x)
                    (logger_middleware (started x) (req_path x), c))))"

text \<open>The body of the last call of \<^verbatim>\<open>json\<close>, undefined when there was no call.\<close>

definition last_body :: "'a exchange \<Rightarrow> jsvalue" where
  "last_body x = (case json_calls x of [] \<Rightarrow> JUndefined | call # calls \<Rightarrow> fst (last (json_calls x)))"

text \<open>For the examples: the error with which the JSON parser rejects a malformed body.\<close>

definition bad_json :: js_error where
  "bad_json = \<lparr>status = JNum 400, statusCode = JNum 400,
               message = JStr (ascii ''Unexpected end of JSON input'')\<rparr>"

section \<open>Error translation (\<^verbatim>\<open>src/server/index.ts\<close>, lines 62-67)\<close>

text \<open>
  The handler receives the error and the response. The response is the parameter
  \<open>res_status_json\<close>: the call \<^verbatim>\<open>res.status(status).json(body)\<close>, which acts
  on the state \<open>'c\<close> of the connection to the client and returns or throws. The result
  is the new state of the connection and the lines passed to \<^verbatim>\<open>log\<close>, or the
  exception that leaves the handler; \<^verbatim>\<open>log\<close> is reached only when the response
  has returned.
\<close>

definition errorHandler ::
  "(jsvalue \<Rightarrow> jsvalue \<Rightarrow> 'c \<Rightarrow> 'c \<times> (js_error + 'r)) \<Rightarrow> js_error \<Rightarrow> 'c \<Rightarrow>
     'c \<times> (js_error + jsstring list)" where
  "errorHandler res_status_json err c =
     (let status' = js_or (status err) (js_or (statusCode err) (JNum 500));
          message' = js_or (message err) (JStr (ascii ''Internal Server Error''));
          (c', r) = res_status_json status' (JObj [(ascii ''message'', message')]) c
      in case r of
           Inl e \<Rightarrow> (c', Inl e)
         | Inr v \<Rightarrow>
             (c', Inr [ascii ''Error: '' @ toString message' @ ascii '' (status: ''
                         @ toString status' @ ascii '')'']))"

text \<open>
  A response for the examples: it serialises the body with \<^verbatim>\<open>JSON.stringify\<close>,
  as \<^verbatim>\<open>res.json\<close> of the framework does, and appends the status and the text to
  what the client has received; it throws what the serialisation throws.
\<close>

definition send_response ::
  "jsvalue \<Rightarrow> jsvalue \<Rightarrow> (jsvalue \<times> jsstring) list \<Rightarrow>
     (jsvalue \<times> jsstring) list \<times> (js_error + unit)" where
  "send_response status' bodyJson sent =
     (case JSON_stringify bodyJson of
        Inl e \<Rightarrow> (sent, Inl e)
      | Inr t \<Rightarrow> (sent @ [(status', template t)], Inr ()))"

section \<open>Bootstrap gate (\<^verbatim>\<open>src/server/index.ts\<close>, lines 47-109)\<close>

text \<open>
  A value that is thrown, or that a promise is rejected with: a truthy value, read
  through its three properties, or a falsy value (\<^verbatim>\<open>undefined\<close>,
  \<^verbatim>\<open>null\<close>, \<^verbatim>\<open>false\<close>, 0, NaN, the empty string). The
  \<^verbatim>\<open>next\<close> of the framework treats only a truthy argument as an error. The two
  strings that \<^verbatim>\<open>next\<close> reserves (\<^verbatim>\<open>route\<close> and
  \<^verbatim>\<open>router\<close>) are not represented.
\<close>

datatype thrown = FalsyValue | ErrorValue js_error

text \<open>
  What the process is started with: the value of \<^verbatim>\<open>app.get("env")\<close>, the
  environment variable \<^verbatim>\<open>VERCEL\<close>, and how the collaborators and the runtime
  behave. \<open>None\<close> for a collaborator means that its promise is fulfilled (for
  \<^verbatim>\<open>serveStatic\<close>: that it returns), \<open>Some v\<close> that the promise is
  rejected with \<open>v\<close> (that it throws \<open>v\<close>).

  \<open>early_route\<close> is a parameter, since \<^verbatim>\<open>routes.ts\<close> is not among the
  sources: \<open>early_route cfg r\<close> says that request \<open>r\<close> is answered by a route that
  \<^verbatim>\<open>registerRoutes\<close> attaches during its call at line 52, before its first
  await. That call is made before the gate is installed (line 96), so such a route stands
  in front of the gate.

  \<open>exits_on_unhandled_rejection\<close> is the policy of the runtime for a promise that is
  rejected while nothing awaits it: Node ends the process (its default since version 15)
  or goes on.
\<close>

record config =
  env :: jsstring
  VERCEL :: "jsstring option"
  registerRoutes :: "thrown option"
  setupVite :: "thrown option"
  serveStatic :: "thrown option"
  early_route :: "nat \<Rightarrow> bool"
  exits_on_unhandled_rejection :: bool

text \<open>\<^verbatim>\<open>process.env.VERCEL\<close> as a condition: set, and not the empty string.\<close>

definition vercel :: "config \<Rightarrow> bool" where
  "vercel cfg = (case VERCEL cfg of None \<Rightarrow> False | Some v \<Rightarrow> v \<noteq> [])"

datatype exported = Serverless | App

definition default_export :: "config \<Rightarrow> exported" where
  "default_export cfg = (if vercel cfg then Serverless else App)"

text \<open>
  The calls the initialization makes, in the order it makes them. \<open>Listen port host line\<close>
  is \<^verbatim>\<open>server.listen(port, host, callback)\<close> with the line the callback logs.
\<close>

datatype effect =
    ConsoleLog string
  | ConsoleError string
  | RegisterRoutes
  | UseErrorHandler
  | CreateServer
  | SetupVite
  | Listen jsint jsstring jsstring
  | ServeStatic

datatype promise = Pending | Fulfilled | Rejected thrown

text \<open>Where the asynchronous function stands: at one of its two awaits, or returned.\<close>

datatype phase = AwaitRegisterRoutes | AwaitSetupVite | Returned

text \<open>
  Where a request goes when it leaves the gate. The framework keeps the layers in the
  order of the calls of \<^verbatim>\<open>app.use\<close>: the body parsers, the CORS headers and the
  response logger stand before the gate, and the error handler of lines 62-67, once
  \<^verbatim>\<open>app.use\<close> has installed it, stands behind the gate. \<^verbatim>\<open>next()\<close>
  hands the request to the layers behind the gate (route dispatch);
  \<^verbatim>\<open>next(error)\<close> with a truthy error skips to the next error handler, which
  is the handler of lines 62-67 when it is installed, and the final handler of the
  framework (its default error page) when no error handler is installed; with a falsy
  value it is \<^verbatim>\<open>next()\<close>.
\<close>

datatype delivery =
    RouteDispatch
  | ErrorHandler js_error
  | FinalHandler js_error

text \<open>
  The state of the process: the flag and the promise of lines 48-49, where the
  asynchronous function stands, the calls it has made, whether the process is running,
  the requests suspended at the gate, the requests that have left the gate with where they
  went, and the requests that a route in front of the gate has answered.
\<close>

record server =
  isInitialized :: bool
  initializationPromise :: promise
  phase :: phase
  effects :: "effect list"
  alive :: bool
  waiting :: "nat list"
  delivered :: "(nat \<times> delivery) list"
  bypassed :: "(nat \<times> delivery) list"

text \<open>
  The state when the module has been evaluated: the asynchronous function has run up
  to its first await (line 52), the gate is installed, no request has arrived.
\<close>

definition boot :: server where
  "boot = \<lparr>isInitialized = False, initializationPromise = Pending,
           phase = AwaitRegisterRoutes,
           effects = [ConsoleLog ''Before registering routes'', RegisterRoutes],
           alive = True, waiting = [], delivered = [], bypassed = []\<rparr>"

text \<open>
  The catch block (lines 88-92) and the end of the try block (lines 86-87). The catch
  block throws the value again, which rejects the promise. A request suspended at the gate
  awaits the promise and so handles the rejection; when no request is suspended the
  rejection is unhandled, and the runtime ends the process if that is its policy.
\<close>

definition failed :: "config \<Rightarrow> thrown \<Rightarrow> server \<Rightarrow> server" where
  "failed cfg v s =
     s\<lparr>effects := effects s @ [ConsoleError ''Initialization failed:''],
       initializationPromise := Rejected v, phase := Returned,
       alive := \<not> (exits_on_unhandled_rejection cfg \<and> waiting s = [])\<rparr>"

definition completed :: "server \<Rightarrow> server" where
  "completed s =
     s\<lparr>isInitialized := True,
       effects := effects s @ [ConsoleLog ''Initialization complete''],
       initializationPromise := Fulfilled, phase := Returned\<rparr>"

text \<open>Lines 52-84, from the moment the promise of \<^verbatim>\<open>registerRoutes\<close> settles.\<close>

definition after_registerRoutes :: "config \<Rightarrow> server \<Rightarrow> server" where
  "after_registerRoutes cfg s =
     (case registerRoutes cfg of
        Some v \<Rightarrow> failed cfg v s
      | None \<Rightarrow>
          (let s1 = s\<lparr>effects := effects s @
                    [ConsoleLog ''After registering routes'',
                     ConsoleLog ''Registered routes:'', UseErrorHandler]\<rparr>
           in if env cfg = ascii ''development''
              then s1\<lparr>effects := effects s1 @ [CreateServer, SetupVite],
                      phase := AwaitSetupVite\<rparr>
              else (let s2 = s1\<lparr>effects := effects s1 @ [ServeStatic]\<rparr>
                    in case serveStatic cfg of
                         Some v \<Rightarrow> failed cfg v s2
                       | None \<Rightarrow> completed s2)))"

text \<open>Lines 73-87, from the moment the promise of \<^verbatim>\<open>setupVite\<close> settles.\<close>

definition after_setupVite :: "config \<Rightarrow> server \<Rightarrow> server" where
  "after_setupVite cfg s =
     (case setupVite cfg of
        Some v \<Rightarrow> failed cfg v s
      | None \<Rightarrow>
          (if \<not> vercel cfg
           then (let port = 5000; host = ascii ''localhost''
                 in completed (s\<lparr>effects := effects s @
                      [Listen port host
                         (ascii ''Server running at http://'' @ host @ ascii '':''
                            @ number_toString port)]\<rparr>))
           else completed s))"

definition error_handler_installed :: "server \<Rightarrow> bool" where
  "error_handler_installed s = (UseErrorHandler \<in> set (effects s))"

definition next_error :: "server \<Rightarrow> js_error \<Rightarrow> delivery" where
  "next_error s e =
     (if error_handler_installed s then ErrorHandler e else FinalHandler e)"

text \<open>
  The gate (lines 96-105). A request that finds \<^verbatim>\<open>isInitialized\<close> set goes on at
  once; every other request awaits the promise and is resumed when it has settled.
\<close>

definition gate_enter :: "server \<Rightarrow> delivery option" where
  "gate_enter s = (if \<not> isInitialized s then None else Some RouteDispatch)"

definition gate_next :: "server \<Rightarrow> thrown \<Rightarrow> delivery" where
  "gate_next s v = (case v of FalsyValue \<Rightarrow> RouteDispatch | ErrorValue e \<Rightarrow> next_error s e)"

definition gate_resume :: "server \<Rightarrow> delivery option" where
  "gate_resume s =
     (case initializationPromise s of
        Pending \<Rightarrow> None
      | Fulfilled \<Rightarrow> Some RouteDispatch
      | Rejected v \<Rightarrow> Some (gate_next s v))"

text \<open>
  The event loop. \<open>Settled\<close>: the promise the initialization awaits has settled and
  the function runs to its next await or to its end. \<open>Request r\<close>: request \<open>r\<close>,
  whose body the parsers have accepted, arrives; a route in front of the gate answers it,
  or it reaches the gate. \<open>Resumed r\<close>: the suspended request \<open>r\<close> is resumed,
  which happens only once the promise it awaits has settled. Events arrive in any order;
  a process that has ended takes no request.
\<close>

datatype event = Settled | Request nat | Resumed nat

fun step :: "config \<Rightarrow> server \<Rightarrow> event \<Rightarrow> server" where
  "step cfg s Settled =
     (case phase s of
        AwaitRegisterRoutes \<Rightarrow> after_registerRoutes cfg s
      | AwaitSetupVite \<Rightarrow> after_setupVite cfg s
      | Returned \<Rightarrow> s)"
| "step cfg s (Request r) =
     (if \<not> alive s then s
      else if early_route cfg r then s\<lparr>bypassed := bypassed s @ [(r, RouteDispatch)]\<rparr>
      else (case gate_enter s of
              None \<Rightarrow> s\<lparr>waiting := waiting s @ [r]\<rparr>
            | Some d \<Rightarrow> s\<lparr>delivered := delivered s @ [(r, d)]\<rparr>))"
| "step cfg s (Resumed r) =
     (if alive s \<and> r \<in> set (waiting s) then
        (case gate_resume s of
           None \<Rightarrow> s
         | Some d \<Rightarrow> s\<lparr>waiting := remove1 r (waiting s), delivered := delivered s @ [(r, d)]\<rparr>)
      else s)"

definition run :: "config \<Rightarrow> event list \<Rightarrow> server" where
  "run cfg evs = foldl (step cfg) boot evs"

text \<open>The initialization run to its end: both awaits have settled.\<close>

definition initialization :: "config \<Rightarrow> server" where
  "initialization cfg = run cfg [Settled, Settled]"

text \<open>
  The order the specification gives for the steps of the initialization: the routes,
  the error handler, then the wiring of the mode the environment selects.
\<close>

definition is_step :: "effect \<Rightarrow> bool" where
  "is_step x = (case x of ConsoleLog m \<Rightarrow> False | ConsoleError m \<Rightarrow> False | _ \<Rightarrow> True)"

definition is_listen :: "effect \<Rightarrow> bool" where
  "is_listen x = (case x of Listen p h l \<Rightarrow> True | _ \<Rightarrow> False)"

definition spec_wiring :: "config \<Rightarrow> effect list" where
  "spec_wiring cfg =
     (if env cfg = ascii ''development''
      then [CreateServer, SetupVite] @
           (if vercel cfg then []
            else [Listen 5000 (ascii ''localhost'')
                    (ascii ''Server running at http://localhost:5000'')])
      else [ServeStatic])"

definition spec_sequence :: "config \<Rightarrow> effect list" where
  "spec_sequence cfg = [RegisterRoutes, UseErrorHandler] @ spec_wiring cfg"

text \<open>
  The specification lets each step start only after the step before it has completed,
  and lets the outcome change once, from pending to succeeded or failed, when the
  sequence completes. In its words: how many steps of the sequence have been started when
  \<open>k\<close> of the awaited promises have settled (the step that fails is the last one
  started), how many promises the sequence awaits, and the outcome it ends with.
\<close>

definition spec_steps_started :: "config \<Rightarrow> nat \<Rightarrow> nat" where
  "spec_steps_started cfg k =
     (if k = 0 \<or> registerRoutes cfg \<noteq> None then 1
      else if env cfg \<noteq> ascii ''development'' then 3
      else if k = 1 \<or> setupVite cfg \<noteq> None then 4
      else length (spec_sequence cfg))"

definition spec_awaits :: "config \<Rightarrow> nat" where
  "spec_awaits cfg =
     (if registerRoutes cfg = None \<and> env cfg = ascii ''development'' then 2 else 1)"

definition spec_outcome :: "config \<Rightarrow> promise" where
  "spec_outcome cfg =
     (case registerRoutes cfg of
        Some v \<Rightarrow> Rejected v
      | None \<Rightarrow>
          (case (if env cfg = ascii ''development'' then setupVite cfg else serveStatic cfg) of
             Some v \<Rightarrow> Rejected v
           | None \<Rightarrow> Fulfilled))"

text \<open>
  For the examples: a failure that a collaborator reports, a local development process,
  and a production process started by the serverless host.
\<close>

definition boom :: js_error where
  "boom = \<lparr>status = JUndefined, statusCode = JUndefined,
           message = JStr (ascii ''connect ECONNREFUSED'')\<rparr>"

definition local_dev :: config where
  "local_dev = \<lparr>env = ascii ''development'', VERCEL = None, registerRoutes = None,
                setupVite = None, serveStatic = None, early_route = (\<lambda>r. False),
                exits_on_unhandled_rejection = True\<rparr>"

definition on_vercel :: config where
  "on_vercel = \<lparr>env = ascii ''production'', VERCEL = Some (ascii ''1''),
                registerRoutes = None, setupVite = None, serveStatic = None,
                early_route = (\<lambda>r. False), exits_on_unhandled_rejection = True\<rparr>"

section \<open>Notions used in the proofs\<close>

text \<open>
  Two states agree on the initialization when they agree on the flag, the promise, the
  position of the asynchronous function and the calls made so far. \<open>settle cfg k\<close>
  is the state of the initialization after \<open>k\<close> of its awaits have settled, with no
  request; the other definitions name the shapes this state can have.
\<close>

definition same_init :: "server \<Rightarrow> server \<Rightarrow> bool" where
  "same_init s t =
     (isInitialized s = isInitialized t \<and> initializationPromise s = initializationPromise t
      \<and> phase s = phase t \<and> effects s = effects t)"

fun settle :: "config \<Rightarrow> nat \<Rightarrow> server" where
  "settle cfg 0 = boot"
| "settle cfg (Suc 0) = step cfg boot Settled"
| "settle cfg (Suc (Suc k)) = initialization cfg"

definition steps_done :: "effect list \<Rightarrow> server" where
  "steps_done es = \<lparr>isInitialized = True, initializationPromise = Fulfilled, phase = Returned,
     effects = es, alive = True, waiting = [], delivered = [], bypassed = []\<rparr>"

definition steps_failed :: "config \<Rightarrow> thrown \<Rightarrow> effect list \<Rightarrow> server" where
  "steps_failed cfg v es = \<lparr>isInitialized = False, initializationPromise = Rejected v,
     phase = Returned, effects = es, alive = (\<not> exits_on_unhandled_rejection cfg),
     waiting = [], delivered = [], bypassed = []\<rparr>"

definition steps_pending :: "phase \<Rightarrow> effect list \<Rightarrow> server" where
  "steps_pending p es = \<lparr>isInitialized = False, initializationPromise = Pending,
     phase = p, effects = es, alive = True, waiting = [], delivered = [], bypassed = []\<rparr>"

definition registered :: "effect list" where
  "registered = [ConsoleLog ''Before registering routes'', RegisterRoutes,
     ConsoleLog ''After registering routes'', ConsoleLog ''Registered routes:'',
     UseErrorHandler]"

section \<open>Properties of the response logger and of the error translation\<close>

text \<open>The modelled difference of two time values is their difference as integers.\<close>

lemma sint_ucast_time: "sint (ucast (a :: jstime) :: jsint) = uint a"
proof -
  have "uint a < 2 ^ 53 \<and> 0 \<le> uint a"
    using uint_lt2p [of a] by simp
  then have "signed_take_bit 53 (uint a) = uint a"
    by (intro signed_take_bit_int_eq_self) linarith+
  then show ?thesis
    by (simp add: signed_ucast_eq)
qed

lemma js_minus_exact: "sint (js_minus a b) = uint a - uint b"
proof -
  have a: "uint a < 2 ^ 53 \<and> 0 \<le> uint a"
    using uint_lt2p [of a] by simp
  have b: "uint b < 2 ^ 53 \<and> 0 \<le> uint b"
    using uint_lt2p [of b] by simp
  have "signed_take_bit 53 (uint a - uint b) = uint a - uint b"
    using a b by (intro signed_take_bit_int_eq_self) linarith+
  then show ?thesis
    by (simp add: js_minus_def sint_word_diff sint_ucast_time)
qed

lemma three_ms: "js_minus 1003 1000 = 3"
  by (simp add: js_minus_def)

lemma ascii_length: "length (ascii s) = length s"
  by (simp add: ascii_def)

lemma slice_0: "slice s 0 n = take n s"
  by (simp add: slice_def)

lemma truncateLine_length:
  "length (truncateLine marker l) = (if 80 < length l then 79 + length marker else length l)"
  by (simp add: truncateLine_def slice_0)

lemma truncateLine_part_001_bound: "length (truncateLine marker_part_001 l) \<le> 80"
  by (simp add: truncateLine_length marker_part_001_def)

lemma truncateLine_index_overflow:
  "80 < length l \<Longrightarrow> length (truncateLine marker_index l) = 82"
  by (simp add: truncateLine_length marker_index_def)

lemma on_finish_cases:
  "on_finish marker now method sc l =
     (if \<not> startsWith (path l) (ascii ''/api'') then Inr []
      else if \<not> truthy (capturedJsonResponse l)
        then Inr [truncateLine marker (request_line method (path l) sc (js_minus now (start l)))]
      else case JSON_stringify (capturedJsonResponse l) of
             Inl e \<Rightarrow> Inl e
           | Inr r \<Rightarrow> Inr [truncateLine marker
                (request_line method (path l) sc (js_minus now (start l)) @ ascii '' :: '' @ template r)])"
  by (simp add: on_finish_def Let_def)

lemma finish_handler_cases:
  "finish_handler now method sc l =
     (if \<not> startsWith (path l) (ascii ''/api'') then Inr []
      else if \<not> truthy (capturedJsonResponse l)
        then Inr [truncateLine marker_index (request_line method (path l) sc (js_minus now (start l)))]
      else case JSON_stringify (capturedJsonResponse l) of
             Inl e \<Rightarrow> Inl e
           | Inr r \<Rightarrow> Inr [truncateLine marker_index
                (request_line method (path l) sc (js_minus now (start l)) @ ascii '' :: '' @ template r)])"
  by (simp add: finish_handler_def on_finish_cases)

lemma api_health: "startsWith (ascii ''/api/health'') (ascii ''/api'')"
  by (simp add: startsWith_def ascii_def)

lemma index_html: "\<not> startsWith (ascii ''/index.html'') (ascii ''/api'')"
  by (simp add: startsWith_def ascii_def)

lemma health_line:
  "truncateLine marker_index (request_line (ascii ''GET'') (ascii ''/api/health'') 200 3)
     = ascii ''GET /api/health 200 in 3ms''"
  by (simp add: truncateLine_def request_line_def number_toString_def decimal_def digits.simps digit_def
      ascii_def)

lemma res_json_closure:
  "fst (fst (res_json orig b args (l, c))) = l\<lparr>capturedJsonResponse := b\<rparr>"
  by (simp add: res_json_def Let_def split: prod.split)

lemma res_json_client:
  "snd (fst (res_json orig b args (l, c))) = fst (orig b args c)"
  by (simp add: res_json_def Let_def split: prod.split)

lemma res_json_result:
  "snd (res_json orig b args (l, c)) = snd (orig b args c)"
  by (simp add: res_json_def Let_def split: prod.split)

lemma res_json_calls_client:
  "snd (res_json_calls orig calls (l, c)) = original_calls orig calls c"
proof (induction calls arbitrary: l c)
  case Nil
  show ?case by simp
next
  case (Cons call calls)
  obtain l' c' where st: "fst (res_json orig (fst call) (snd call) (l, c)) = (l', c')"
    by (cases "fst (res_json orig (fst call) (snd call) (l, c))")
  have "c' = fst (orig (fst call) (snd call) c)"
    using st res_json_client [of orig "fst call" "snd call" l c] by simp
  then show ?case
    using st Cons.IH [of l' c'] by simp
qed

lemma res_json_calls_captured:
  "calls \<noteq> [] \<Longrightarrow>
     fst (res_json_calls orig calls (l, c)) = l\<lparr>capturedJsonResponse := fst (last calls)\<rparr>"
proof (induction calls arbitrary: l c)
  case Nil
  then show ?case by simp
next
  case (Cons call calls)
  obtain l' c' where st: "fst (res_json orig (fst call) (snd call) (l, c)) = (l', c')"
    by (cases "fst (res_json orig (fst call) (snd call) (l, c))")
  have l': "l' = l\<lparr>capturedJsonResponse := fst call\<rparr>"
    using st res_json_closure [of orig "fst call" "snd call" l c] by simp
  show ?case
  proof (cases "calls = []")
    case True
    then show ?thesis using st l' by simp
  next
    case False
    then show ?thesis
      using st l' Cons.IH [of l' c'] by simp
  qed
qed

text \<open>
  The two earlier versions of the file keep every emitted line within 80 code units.
\<close>

lemma finish_handler_part_001_bound:
  "finish_handler_part_001 now method sc l = Inr ls \<Longrightarrow> x \<in> set ls \<Longrightarrow> length x \<le> 80"
  by (auto simp: finish_handler_part_001_def on_finish_cases truncateLine_part_001_bound
      split: if_splits sum.splits)

text \<open>
  Claim C3. The claim is that a line is at most 80 code units long and that an overflowing
  line is cut to 79 units and one marker unit. In \<^verbatim>\<open>src/server/index.ts\<close> the
  marker is three code units long: the request below gets a line of 82 units, the first 79
  of the full line followed by U+00E2, U+20AC, U+00A6.
\<close>

theorem overflow_line_has_82_units:
  \<open>finish_handler 1012 (ascii ''GET'') 200
      \<lparr>start = 1000, path = ascii ''/api/products/search'',
       capturedJsonResponse = JObj [(ascii ''message'',
          JStr (ascii ''No products matched the given search filters''))]\<rparr>
    = Inr [ascii ''GET /api/products/search 200 in 12ms :: {"message":"No products matched the giv''
             @ [0xE2, 0x20AC, 0xA6]]
   \<and> length (ascii ''GET /api/products/search 200 in 12ms :: {"message":"No products matched the giv''
             @ [0xE2, 0x20AC, 0xA6 :: jschar]) = 82\<close>
proof -
  have line: \<open>finish_handler 1012 (ascii ''GET'') 200
      \<lparr>start = 1000, path = ascii ''/api/products/search'',
       capturedJsonResponse = JObj [(ascii ''message'',
          JStr (ascii ''No products matched the given search filters''))]\<rparr>
    = Inr [ascii ''GET /api/products/search 200 in 12ms :: {"message":"No products matched the giv''
             @ [0xE2, 0x20AC, 0xA6]]\<close>
    by code_simp
  show ?thesis
    unfolding line by (simp add: ascii_length)
qed

text \<open>What the finish listener emits, case by case.\<close>

lemma finish_handler_emits:
  \<open>(startsWith (path l) (ascii ''/api'') \<and> \<not> truthy (capturedJsonResponse l) \<longrightarrow>
      finish_handler now method sc l
        = Inr [truncateLine marker_index (request_line method (path l) sc (js_minus now (start l)))])
   \<and> (startsWith (path l) (ascii ''/api'') \<and> truthy (capturedJsonResponse l)
        \<and> JSON_stringify (capturedJsonResponse l) = Inr r \<longrightarrow>
      finish_handler now method sc l
        = Inr [truncateLine marker_index
                 (request_line method (path l) sc (js_minus now (start l)) @ ascii '' :: '' @ template r)])
   \<and> (startsWith (path l) (ascii ''/api'') \<and> truthy (capturedJsonResponse l)
        \<and> JSON_stringify (capturedJsonResponse l) = Inl e \<longrightarrow>
      finish_handler now method sc l = Inl e)
   \<and> (\<not> startsWith (path l) (ascii ''/api'') \<longrightarrow> finish_handler now method sc l = Inr [])
   \<and> finish_handler 1003 (ascii ''GET'') 200
        \<lparr>start = 1000, path = ascii ''/api/health'',
         capturedJsonResponse = JObj [(ascii ''ok'', JBool True)]\<rparr>
        = Inr [ascii ''GET /api/health 200 in 3ms :: {"ok":true}'']\<close>
proof -
  have scenario: \<open>finish_handler 1003 (ascii ''GET'') 200
        \<lparr>start = 1000, path = ascii ''/api/health'',
         capturedJsonResponse = JObj [(ascii ''ok'', JBool True)]\<rparr>
        = Inr [ascii ''GET /api/health 200 in 3ms :: {"ok":true}'']\<close>
    by code_simp
  show ?thesis
    unfolding scenario by (simp add: finish_handler_cases)
qed

lemma request_log_closure:
  "fst (res_json_calls originalResJson (json_calls x)
          (logger_middleware (started x) (req_path x), c))
     = \<lparr>start = started x, path = req_path x, capturedJsonResponse = last_body x\<rparr>"
proof (cases "json_calls x")
  case Nil
  then show ?thesis
    by (simp add: last_body_def logger_middleware_def)
next
  case (Cons call calls)
  then have "json_calls x \<noteq> []"
    by simp
  then have "fst (res_json_calls originalResJson (json_calls x)
          (logger_middleware (started x) (req_path x), c))
      = (logger_middleware (started x) (req_path x))
          \<lparr>capturedJsonResponse := fst (last (json_calls x))\<rparr>"
    by (rule res_json_calls_captured)
  moreover have "last_body x = fst (last (json_calls x))"
    using Cons by (simp add: last_body_def)
  ultimately show ?thesis
    by (simp add: logger_middleware_def)
qed

lemma request_log_eq:
  "request_log originalResJson x c =
     (case body_error x of
        Some e \<Rightarrow> Inr []
      | None \<Rightarrow> finish_handler (ended x) (req_method x) (res_statusCode x)
          \<lparr>start = started x, path = req_path x, capturedJsonResponse = last_body x\<rparr>)"
  by (simp only: request_log_def request_log_closure)

text \<open>
  Claim C5, as amended. A request whose body the parsers in front of the logger reject
  never reaches the logger and gets no request line, whatever its path. For a finished
  request that reaches the logger: when its path does not start with \<^verbatim>\<open>/api\<close> no
  line is emitted; when it does, exactly one line is emitted if the captured body is falsy
  (the request line alone) or is serialised by \<^verbatim>\<open>JSON.stringify\<close> (the request
  line, \<^verbatim>\<open> :: \<close> and the serialised body), cut by the truncation rule, and if
  \<^verbatim>\<open>JSON.stringify\<close> throws the listener throws and emits nothing. The request
  \<^verbatim>\<open>GET /api/health\<close> with status 200, body \<^verbatim>\<open>{"ok":true}\<close> and 3 ms
  gives the line of the specification.
\<close>

theorem request_log_lines:
  \<open>(body_error x = Some e' \<longrightarrow> request_log originalResJson x c = Inr [])
   \<and> (body_error x = None \<and> \<not> startsWith (req_path x) (ascii ''/api'') \<longrightarrow>
        request_log originalResJson x c = Inr [])
   \<and> (body_error x = None \<and> startsWith (req_path x) (ascii ''/api'')
        \<and> \<not> truthy (last_body x) \<longrightarrow>
        request_log originalResJson x c
          = Inr [truncateLine marker_index
                   (request_line (req_method x) (req_path x) (res_statusCode x)
                      (js_minus (ended x) (started x)))])
   \<and> (body_error x = None \<and> startsWith (req_path x) (ascii ''/api'')
        \<and> truthy (last_body x) \<and> JSON_stringify (last_body x) = Inr r \<longrightarrow>
        request_log originalResJson x c
          = Inr [truncateLine marker_index
                   (request_line (req_method x) (req_path x) (res_statusCode x)
                      (js_minus (ended x) (started x)) @ ascii '' :: '' @ template r)])
   \<and> (body_error x = None \<and> startsWith (req_path x) (ascii ''/api'')
        \<and> truthy (last_body x) \<and> JSON_stringify (last_body x) = Inl e \<longrightarrow>
        request_log originalResJson x c = Inl e)
   \<and> request_log record_json
        \<lparr>req_method = ascii ''GET'', req_path = ascii ''/api/health'', body_error = None,
         started = 1000, json_calls = [(JObj [(ascii ''ok'', JBool True)], ())],
         res_statusCode = 200, ended = 1003\<rparr> []
        = Inr [ascii ''GET /api/health 200 in 3ms :: {"ok":true}'']\<close>
proof -
  have scenario: \<open>request_log record_json
        \<lparr>req_method = ascii ''GET'', req_path = ascii ''/api/health'', body_error = None,
         started = 1000, json_calls = [(JObj [(ascii ''ok'', JBool True)], ())],
         res_statusCode = 200, ended = 1003\<rparr> []
        = Inr [ascii ''GET /api/health 200 in 3ms :: {"ok":true}'']\<close>
    by (simp add: request_log_eq last_body_def finish_handler_emits)
  show ?thesis
    unfolding scenario by (simp add: request_log_eq finish_handler_cases)
qed

theorem request_log_lines_witness:
  \<open>request_log record_json
      \<lparr>req_method = ascii ''POST'', req_path = ascii ''/api/health'',
       body_error = Some bad_json, started = 1000, json_calls = [],
       res_statusCode = 400, ended = 1003\<rparr> [] = Inr []
   \<and> request_log record_json
      \<lparr>req_method = ascii ''GET'', req_path = ascii ''/index.html'', body_error = None,
       started = 1000, json_calls = [(JObj [(ascii ''ok'', JBool True)], ())],
       res_statusCode = 200, ended = 1003\<rparr> [] = Inr []
   \<and> request_log record_json
      \<lparr>req_method = ascii ''GET'', req_path = ascii ''/api/health'', body_error = None,
       started = 1000, json_calls = [(JObj [(ascii ''ok'', JBool True)], ()), (JNull, ())],
       res_statusCode = 200, ended = 1003\<rparr> []
     = Inr [ascii ''GET /api/health 200 in 3ms'']\<close>
proof -
  let ?bad = "\<lparr>req_method = ascii ''POST'', req_path = ascii ''/api/health'',
       body_error = Some bad_json, started = 1000, json_calls = [],
       res_statusCode = 400, ended = 1003\<rparr> :: unit exchange"
  let ?page = "\<lparr>req_method = ascii ''GET'', req_path = ascii ''/index.html'',
       body_error = None, started = 1000,
       json_calls = [(JObj [(ascii ''ok'', JBool True)], ())],
       res_statusCode = 200, ended = 1003\<rparr> :: unit exchange"
  let ?api = "\<lparr>req_method = ascii ''GET'', req_path = ascii ''/api/health'',
       body_error = None, started = 1000,
       json_calls = [(JObj [(ascii ''ok'', JBool True)], ()), (JNull, ())],
       res_statusCode = 200, ended = 1003\<rparr> :: unit exchange"
  have bad: "body_error ?bad = Some bad_json"
    by simp
  have page: "body_error ?page = None \<and> \<not> startsWith (req_path ?page) (ascii ''/api'')"
    by (simp add: index_html)
  have api: "body_error ?api = None \<and> startsWith (req_path ?api) (ascii ''/api'')
      \<and> \<not> truthy (last_body ?api)"
    by (simp add: api_health last_body_def)
  have line: "truncateLine marker_index
      (request_line (req_method ?api) (req_path ?api) (res_statusCode ?api)
         (js_minus (ended ?api) (started ?api)))
      = ascii ''GET /api/health 200 in 3ms''"
    by (simp add: three_ms health_line)
  note t1 = request_log_lines [of ?bad bad_json record_json "[]",
      THEN conjunct1, THEN mp, OF bad]
  note t2 = request_log_lines [of ?page _ record_json "[]",
      THEN conjunct2, THEN conjunct1, THEN mp, OF page]
  note t3 = request_log_lines [of ?api _ record_json "[]",
      THEN conjunct2, THEN conjunct2, THEN conjunct1, THEN mp, OF api]
  show ?thesis
    by (rule conjI [OF t1 conjI [OF t2 t3 [unfolded line]]])
qed

text \<open>
  Claim C5 as stated fails for two requests whose paths start with \<^verbatim>\<open>/api\<close>. The
  first has a malformed JSON body: the parser rejects it in front of the logger, the
  response finishes and no line is emitted. The second reaches the logger, and the
  listener throws before it reaches \<^verbatim>\<open>log\<close>.
\<close>

theorem api_request_without_line:
  \<open>startsWith (ascii ''/api/orders'') (ascii ''/api'')
   \<and> request_log record_json
      \<lparr>req_method = ascii ''POST'', req_path = ascii ''/api/orders'',
       body_error = Some bad_json, started = 1000, json_calls = [],
       res_statusCode = 400, ended = 1003\<rparr> [] = Inr []
   \<and> startsWith (ascii ''/api/items'') (ascii ''/api'')
   \<and> request_log record_json
      \<lparr>req_method = ascii ''GET'', req_path = ascii ''/api/items'', body_error = None,
       started = 1000, json_calls = [(JObj [(ascii ''count'', JBigInt 3)], ())],
       res_statusCode = 200, ended = 1003\<rparr> []
     = Inl (TypeError ''Do not know how to serialize a BigInt'')\<close>
  by (simp add: request_log_eq last_body_def finish_handler_cases startsWith_def ascii_def)

text \<open>
  Claim C10. For a path that starts with \<^verbatim>\<open>/api\<close>: when the last body passed
  to \<^verbatim>\<open>json\<close> is falsy, the line is the request line alone, the same line as
  when \<^verbatim>\<open>json\<close> was never called; the body segment is appended when that
  body is truthy (and then holds its serialisation).
\<close>

theorem falsy_body_omitted:
  assumes "startsWith (path l) (ascii ''/api'')"
  shows "(\<not> truthy bodyJson \<longrightarrow>
      finish_handler now method sc (fst (fst (res_json originalResJson bodyJson args (l, c))))
        = Inr [truncateLine marker_index (request_line method (path l) sc (js_minus now (start l)))]
      \<and> finish_handler now method sc (fst (fst (res_json originalResJson bodyJson args (l, c))))
        = finish_handler now method sc (logger_middleware (start l) (path l)))
   \<and> (truthy bodyJson \<and> JSON_stringify bodyJson = Inr r \<longrightarrow>
      finish_handler now method sc (fst (fst (res_json originalResJson bodyJson args (l, c))))
        = Inr [truncateLine marker_index
                 (request_line method (path l) sc (js_minus now (start l)) @ ascii '' :: '' @ template r)])"
  using assms by (simp add: res_json_closure finish_handler_cases logger_middleware_def)

theorem falsy_body_omitted_witness:
  \<open>finish_handler 1003 (ascii ''GET'') 200
      (fst (fst (res_json record_json (JNum 0) ()
         (\<lparr>start = 1000, path = ascii ''/api/health'',
           capturedJsonResponse = JObj [(ascii ''ok'', JBool True)]\<rparr>, []))))
     = Inr [ascii ''GET /api/health 200 in 3ms'']
   \<and> finish_handler 1003 (ascii ''GET'') 200
      (fst (fst (res_json record_json (JNum 0) ()
         (\<lparr>start = 1000, path = ascii ''/api/health'',
           capturedJsonResponse = JObj [(ascii ''ok'', JBool True)]\<rparr>, []))))
     = finish_handler 1003 (ascii ''GET'') 200 (logger_middleware 1000 (ascii ''/api/health''))\<close>
proof -
  let ?l = "\<lparr>start = 1000, path = ascii ''/api/health'',
             capturedJsonResponse = JObj [(ascii ''ok'', JBool True)]\<rparr>"
  have api: "startsWith (path ?l) (ascii ''/api'')"
    by (simp add: api_health)
  have falsy: "\<not> truthy (JNum 0)"
    by simp
  have line: "truncateLine marker_index
      (request_line (ascii ''GET'') (path ?l) 200 (js_minus 1003 (start ?l)))
      = ascii ''GET /api/health 200 in 3ms''"
    by (simp add: three_ms health_line)
  have never: "logger_middleware (start ?l) (path ?l)
      = logger_middleware 1000 (ascii ''/api/health'')"
    by simp
  show ?thesis
    using falsy_body_omitted [OF api, of "JNum 0" 1003 "ascii ''GET''" 200 record_json "()" "[]"]
      falsy
    unfolding line never by blast
qed

text \<open>
  Claim C4, as amended. The finish listener throws exactly when the path starts with
  \<^verbatim>\<open>/api\<close>, the captured body is truthy and \<^verbatim>\<open>JSON.stringify\<close> throws
  on it, and then it throws that error; in every other case it returns. Recording the body
  cannot fail: the replaced \<^verbatim>\<open>json\<close> leaves the client in the state the original
  leaves it in and returns or throws what the original returns or throws.
\<close>

theorem finish_handler_throws_iff:
  "(finish_handler now method sc l = Inl e) =
     (startsWith (path l) (ascii ''/api'') \<and> truthy (capturedJsonResponse l)
        \<and> JSON_stringify (capturedJsonResponse l) = Inl e)
   \<and> snd (fst (res_json originalResJson bodyJson args (l, c)))
       = fst (originalResJson bodyJson args c)
   \<and> snd (res_json originalResJson bodyJson args (l, c)) = snd (originalResJson bodyJson args c)"
  by (simp add: finish_handler_cases res_json_client res_json_result split: sum.splits)

theorem finish_handler_throws_iff_witness:
  \<open>finish_handler 1003 (ascii ''GET'') 200
      \<lparr>start = 1000, path = ascii ''/index.html'', capturedJsonResponse = JBigInt 7\<rparr>
     \<noteq> Inl (TypeError ''Do not know how to serialize a BigInt'')
   \<and> snd (fst (res_json record_json (JBigInt 7) ()
         (\<lparr>start = 1000, path = ascii ''/index.html'', capturedJsonResponse = JBigInt 7\<rparr>,
          []))) = [JBigInt 7]\<close>
proof -
  let ?l = "\<lparr>start = 1000, path = ascii ''/index.html'', capturedJsonResponse = JBigInt 7\<rparr>"
  have page: "\<not> startsWith (path ?l) (ascii ''/api'')"
    by (simp add: index_html)
  have sent: "fst (record_json (JBigInt 7) () []) = [JBigInt 7]"
    by (simp add: record_json_def)
  show ?thesis
    using finish_handler_throws_iff [of 1003 "ascii ''GET''" 200 ?l
        "TypeError ''Do not know how to serialize a BigInt''" record_json "JBigInt 7" "()" "[]"]
      page
    unfolding sent by blast
qed

text \<open>Claim C4 as stated fails: a captured body that holds a BigInt makes the listener throw.\<close>

theorem finish_handler_throws_on_bigint:
  \<open>finish_handler 1005 (ascii ''POST'') 201
     \<lparr>start = 1000, path = ascii ''/api/orders'',
      capturedJsonResponse = JObj [(ascii ''id'', JBigInt 9007199254740993)]\<rparr>
   = Inl (TypeError ''Do not know how to serialize a BigInt'')\<close>
  by (simp add: finish_handler_cases startsWith_def ascii_def)

text \<open>
  Claim C6. The replaced \<^verbatim>\<open>json\<close> returns (or throws) what the original does
  and leaves the client in the same state, for every body and every argument list; a
  sequence of calls sends what the same calls of the original send; after two calls with
  bodies \<open>B1\<close> then \<open>B2\<close> the captured body is \<open>B2\<close>, and the finish listener
  logs as for \<open>B2\<close>.
\<close>

theorem res_json_transparent_last_wins:
  "snd (res_json originalResJson bodyJson args (l, c)) = snd (originalResJson bodyJson args c)
   \<and> snd (fst (res_json originalResJson bodyJson args (l, c)))
       = fst (originalResJson bodyJson args c)
   \<and> snd (res_json_calls originalResJson calls (l, c)) = original_calls originalResJson calls c
   \<and> capturedJsonResponse
        (fst (res_json_calls originalResJson [(B1, args1), (B2, args2)] (l, c))) = B2
   \<and> finish_handler now method sc
        (fst (res_json_calls originalResJson [(B1, args1), (B2, args2)] (l, c)))
       = finish_handler now method sc (l\<lparr>capturedJsonResponse := B2\<rparr>)"
proof -
  have last2: "fst (res_json_calls originalResJson [(B1, args1), (B2, args2)] (l, c))
        = l\<lparr>capturedJsonResponse := B2\<rparr>"
    using res_json_calls_captured [of "[(B1, args1), (B2, args2)]" originalResJson l c] by simp
  have "capturedJsonResponse (l\<lparr>capturedJsonResponse := B2\<rparr>) = B2"
    by simp
  then show ?thesis
    by (simp only: res_json_result res_json_client res_json_calls_client last2 simp_thms)
qed

theorem res_json_transparent_last_wins_witness:
  \<open>snd (fst (res_json record_json (JBool True) ()
         (logger_middleware 1000 (ascii ''/api/health''), []))) = [JBool True]
   \<and> snd (res_json_calls record_json [(JNull, ()), (JObj [(ascii ''ok'', JBool True)], ())]
         (logger_middleware 1000 (ascii ''/api/health''), []))
       = [JNull, JObj [(ascii ''ok'', JBool True)]]
   \<and> capturedJsonResponse
        (fst (res_json_calls record_json [(JNull, ()), (JObj [(ascii ''ok'', JBool True)], ())]
          (logger_middleware 1000 (ascii ''/api/health''), [])))
       = JObj [(ascii ''ok'', JBool True)]\<close>
  using res_json_transparent_last_wins [of record_json "JBool True" "()"
      "logger_middleware 1000 (ascii ''/api/health'')" "[]"
      "[(JNull, ()), (JObj [(ascii ''ok'', JBool True)], ())]"
      JNull "()" "JObj [(ascii ''ok'', JBool True)]" "()"]
  by (simp add: record_json_def)

text \<open>
  Claim C7, as amended. The status given to the response is the \<^verbatim>\<open>status\<close> field
  of the error when that field is truthy, else its \<^verbatim>\<open>statusCode\<close> field when
  truthy, else 500; the body is the object with the one property \<^verbatim>\<open>message\<close>,
  which is the message of the error when truthy and \<^verbatim>\<open>Internal Server Error\<close>
  otherwise; the line \<^verbatim>\<open>Error: <message> (status: <status>)\<close> is logged. The error
  with status 404 and message \<^verbatim>\<open>not found\<close> yields 404 and the body
  \<^verbatim>\<open>{"message":"not found"}\<close>.
\<close>

theorem errorHandler_resolution:
  \<open>errorHandler res_status_json err c =
     (let status' = (if truthy (status err) then status err
                     else if truthy (statusCode err) then statusCode err else JNum 500);
          message' = (if truthy (message err) then message err
                      else JStr (ascii ''Internal Server Error''))
      in case res_status_json status' (JObj [(ascii ''message'', message')]) c of
           (c', Inl e) \<Rightarrow> (c', Inl e)
         | (c', Inr v) \<Rightarrow>
             (c', Inr [ascii ''Error: '' @ toString message' @ ascii '' (status: ''
                         @ toString status' @ ascii '')'']))
   \<and> errorHandler send_response
        \<lparr>status = JNum 404, statusCode = JUndefined, message = JStr (ascii ''not found'')\<rparr> []
      = ([(JNum 404, ascii ''{"message":"not found"}'')],
         Inr [ascii ''Error: not found (status: 404)''])\<close>
proof -
  have scenario: \<open>errorHandler send_response
        \<lparr>status = JNum 404, statusCode = JUndefined, message = JStr (ascii ''not found'')\<rparr> []
      = ([(JNum 404, ascii ''{"message":"not found"}'')],
         Inr [ascii ''Error: not found (status: 404)''])\<close>
    by code_simp
  show ?thesis
    unfolding scenario
    by (simp add: errorHandler_def js_or_def Let_def split: prod.splits sum.splits)
qed

theorem errorHandler_resolution_witness:
  \<open>errorHandler send_response
      \<lparr>status = JUndefined, statusCode = JNum 503, message = JUndefined\<rparr> []
    = ([(JNum 503, ascii ''{"message":"Internal Server Error"}'')],
       Inr [ascii ''Error: Internal Server Error (status: 503)''])\<close>
  apply (subst errorHandler_resolution [THEN conjunct1])
  apply code_simp
  done

text \<open>
  Claim C7 as stated fails: a \<^verbatim>\<open>status\<close> field that is present but falsy is
  skipped, here in favour of the \<^verbatim>\<open>statusCode\<close> field: the client receives 404.
\<close>

theorem status_zero_is_skipped:
  \<open>errorHandler send_response
      \<lparr>status = JNum 0, statusCode = JNum 404, message = JStr (ascii ''not found'')\<rparr> []
    = ([(JNum 404, ascii ''{"message":"not found"}'')],
       Inr [ascii ''Error: not found (status: 404)''])\<close>
  by code_simp

section \<open>Properties of the bootstrap gate\<close>

lemmas init_defs =
  after_registerRoutes_def after_setupVite_def failed_def completed_def boot_def Let_def

lemma run_Nil: "run cfg [] = boot"
  by (simp add: run_def)

lemma run_snoc: "run cfg (evs @ [ev]) = step cfg (run cfg evs) ev"
  by (simp add: run_def)

lemma run_append: "run cfg (evs @ evs') = foldl (step cfg) (run cfg evs) evs'"
  by (simp add: run_def)

lemma initialization_eq: "initialization cfg = step cfg (step cfg boot Settled) Settled"
  by (simp add: initialization_def run_def)

lemma same_init_refl: "same_init s s"
  by (simp add: same_init_def)

lemma same_init_trans: "same_init s t \<Longrightarrow> same_init t u \<Longrightarrow> same_init s u"
  by (simp add: same_init_def)

lemma step_request_same: "same_init (step cfg s (Request r)) s"
  by (simp add: same_init_def gate_enter_def)

lemma failed_cong:
  "same_init s t \<Longrightarrow> same_init (failed cfg v s) (failed cfg v t)"
  by (simp add: same_init_def failed_def)

lemma step_resumed_same: "same_init (step cfg s (Resumed r)) s"
  by (simp add: same_init_def split: option.splits)

lemma step_settled_cong:
  "same_init s t \<Longrightarrow> same_init (step cfg s Settled) (step cfg t Settled)"
  by (auto simp: same_init_def init_defs split: phase.splits option.splits)

lemma phase_initialization: "phase (initialization cfg) = Returned"
  by (simp add: initialization_eq init_defs split: option.splits phase.splits)

lemma step_settled_returned: "phase s = Returned \<Longrightarrow> step cfg s Settled = s"
  by simp

lemma settle_Suc: "step cfg (settle cfg k) Settled = settle cfg (Suc k)"
proof (cases k)
  case 0
  then show ?thesis by simp
next
  case (Suc j)
  show ?thesis
  proof (cases j)
    case 0
    then show ?thesis
      using Suc by (simp add: initialization_eq del: step.simps)
  next
    case (Suc i)
    then show ?thesis
      using \<open>k = Suc j\<close>
      by (simp add: step_settled_returned phase_initialization del: step.simps)
  qed
qed

lemma run_same_init: "same_init (run cfg evs) (settle cfg (count_list evs Settled))"
proof (induction evs rule: rev_induct)
  case Nil
  show ?case by (simp add: run_Nil same_init_refl)
next
  case (snoc ev evs)
  show ?case
  proof (cases ev)
    case Settled
    have "same_init (step cfg (run cfg evs) Settled)
            (step cfg (settle cfg (count_list evs Settled)) Settled)"
      using snoc.IH by (rule step_settled_cong)
    then show ?thesis
      using Settled by (simp add: run_snoc settle_Suc del: step.simps)
  next
    case (Request r)
    then show ?thesis
      using same_init_trans [OF step_request_same snoc.IH] by (simp add: run_snoc del: step.simps)
  next
    case (Resumed r)
    then show ?thesis
      using same_init_trans [OF step_resumed_same snoc.IH] by (simp add: run_snoc del: step.simps)
  qed
qed

lemma number_5000: "number_toString 5000 = ascii ''5000''"
  by (simp add: number_toString_def decimal_def digits.simps digit_def ascii_def)

lemma readiness_line:
  "ascii ''Server running at http://'' @ ascii ''localhost'' @ ascii '':'' @ number_toString 5000
     = ascii ''Server running at http://localhost:5000''"
  by (simp add: number_5000) (simp add: ascii_def)

lemma first_settle:
  "step cfg boot Settled =
     (case registerRoutes cfg of
        Some v \<Rightarrow> steps_failed cfg v [ConsoleLog ''Before registering routes'', RegisterRoutes,
                    ConsoleError ''Initialization failed:'']
      | None \<Rightarrow>
          if env cfg = ascii ''development''
          then steps_pending AwaitSetupVite (registered @ [CreateServer, SetupVite])
          else (case serveStatic cfg of
                  Some v \<Rightarrow> steps_failed cfg v
                    (registered @ [ServeStatic, ConsoleError ''Initialization failed:''])
                | None \<Rightarrow> steps_done
                    (registered @ [ServeStatic, ConsoleLog ''Initialization complete''])))"
  by (simp add: init_defs steps_done_def steps_failed_def steps_pending_def registered_def
      split: option.splits)

lemma second_settle:
  "initialization cfg =
     (case registerRoutes cfg of
        Some v \<Rightarrow> steps_failed cfg v [ConsoleLog ''Before registering routes'', RegisterRoutes,
                    ConsoleError ''Initialization failed:'']
      | None \<Rightarrow>
          if env cfg = ascii ''development''
          then (case setupVite cfg of
                  Some v \<Rightarrow> steps_failed cfg v
                    (registered @ [CreateServer, SetupVite,
                       ConsoleError ''Initialization failed:''])
                | None \<Rightarrow>
                    if vercel cfg
                    then steps_done (registered @ [CreateServer, SetupVite,
                           ConsoleLog ''Initialization complete''])
                    else steps_done (registered @ [CreateServer, SetupVite,
                           Listen 5000 (ascii ''localhost'')
                             (ascii ''Server running at http://localhost:5000''),
                           ConsoleLog ''Initialization complete'']))
          else (case serveStatic cfg of
                  Some v \<Rightarrow> steps_failed cfg v
                    (registered @ [ServeStatic, ConsoleError ''Initialization failed:''])
                | None \<Rightarrow> steps_done
                    (registered @ [ServeStatic, ConsoleLog ''Initialization complete''])))"
  unfolding initialization_eq first_settle
  by (simp add: after_setupVite_def failed_def completed_def Let_def readiness_line
      steps_done_def steps_failed_def steps_pending_def registered_def
      split: option.splits)

lemma boot_fields:
  "isInitialized boot = False" "initializationPromise boot = Pending"
  "phase boot = AwaitRegisterRoutes"
  "effects boot = [ConsoleLog ''Before registering routes'', RegisterRoutes]"
  "alive boot = True" "waiting boot = []" "delivered boot = []" "bypassed boot = []"
  by (simp_all add: boot_def)

lemmas settle_defs =
  first_settle second_settle steps_done_def steps_failed_def steps_pending_def registered_def
  boot_fields

lemma settle_cases:
  "settle cfg k = boot \<and> k = 0
   \<or> settle cfg k = step cfg boot Settled \<and> k = 1
   \<or> settle cfg k = initialization cfg \<and> 2 \<le> k"
proof (cases k)
  case 0
  then show ?thesis by simp
next
  case (Suc j)
  then show ?thesis by (cases j) (simp_all del: step.simps)
qed

lemma settle_promise_phase:
  "(initializationPromise (settle cfg k) \<noteq> Pending) = (phase (settle cfg k) = Returned)"
  using settle_cases [of cfg k]
  by (auto simp: settle_defs split: option.splits if_splits simp del: step.simps)

lemma settle_isInitialized:
  "isInitialized (settle cfg k) = (initializationPromise (settle cfg k) = Fulfilled)"
  using settle_cases [of cfg k]
  by (auto simp: settle_defs split: option.splits if_splits simp del: step.simps)

lemma settle_two: "2 \<le> k \<Longrightarrow> phase (settle cfg k) = Returned"
  using settle_cases [of cfg k] by (auto simp: phase_initialization)

lemma settle_steps:
  "prefix (filter is_step (effects (settle cfg k))) (spec_sequence cfg)"
  using settle_cases [of cfg k]
  by (auto simp: settle_defs is_step_def spec_sequence_def spec_wiring_def
      split: option.splits if_splits simp del: step.simps)

lemma settle_steps_started:
  "filter is_step (effects (settle cfg k))
     = take (spec_steps_started cfg k) (spec_sequence cfg)"
  using settle_cases [of cfg k]
  by (auto simp: settle_defs is_step_def spec_sequence_def spec_wiring_def
      spec_steps_started_def split: option.splits if_splits simp del: step.simps)

lemma settle_outcome:
  "initializationPromise (settle cfg k)
     = (if k < spec_awaits cfg then Pending else spec_outcome cfg)"
  using settle_cases [of cfg k]
  by (auto simp: settle_defs spec_awaits_def spec_outcome_def
      split: option.splits if_splits simp del: step.simps)

lemma settle_fulfilled_full:
  "initializationPromise (settle cfg k) = Fulfilled \<Longrightarrow>
     filter is_step (effects (settle cfg k)) = spec_sequence cfg"
  using settle_cases [of cfg k]
  by (auto simp: settle_defs is_step_def spec_sequence_def spec_wiring_def
      split: option.splits if_splits simp del: step.simps)

lemma settle_registerRoutes_once:
  "count_list (effects (settle cfg k)) RegisterRoutes = 1"
  using settle_cases [of cfg k]
  by (auto simp: settle_defs split: option.splits if_splits simp del: step.simps)

lemma settle_listen_once:
  "length (filter is_listen (effects (settle cfg k))) \<le> 1"
  using settle_cases [of cfg k]
  by (auto simp: settle_defs is_listen_def split: option.splits if_splits simp del: step.simps)

lemma returned_stable:
  "phase s = Returned \<Longrightarrow> same_init (foldl (step cfg) s evs) s"
proof (induction evs arbitrary: s)
  case Nil
  show ?case by (simp add: same_init_refl)
next
  case (Cons ev evs)
  have one: "same_init (step cfg s ev) s"
  proof (cases ev)
    case Settled
    then show ?thesis using Cons.prems by (simp add: same_init_refl)
  next
    case (Request r)
    then show ?thesis by (simp add: step_request_same del: step.simps)
  next
    case (Resumed r)
    then show ?thesis by (simp add: step_resumed_same del: step.simps)
  qed
  then have "phase (step cfg s ev) = Returned"
    using Cons.prems by (simp add: same_init_def)
  then have "same_init (foldl (step cfg) (step cfg s ev) evs) (step cfg s ev)"
    by (rule Cons.IH)
  then show ?case
    using one by (simp add: same_init_trans del: step.simps)
qed

lemma run_promise_phase:
  "(initializationPromise (run cfg evs) \<noteq> Pending) = (phase (run cfg evs) = Returned)"
  using run_same_init [of cfg evs] settle_promise_phase [of cfg "count_list evs Settled"]
  by (simp add: same_init_def)

lemma run_isInitialized:
  "isInitialized (run cfg evs) = (initializationPromise (run cfg evs) = Fulfilled)"
  using run_same_init [of cfg evs] settle_isInitialized [of cfg "count_list evs Settled"]
  by (simp add: same_init_def)

lemma settled_stable:
  "initializationPromise (run cfg evs) \<noteq> Pending \<Longrightarrow>
     same_init (run cfg (evs @ evs')) (run cfg evs)"
  by (simp add: run_append run_promise_phase returned_stable)

lemma gate_resume_cong: "same_init s t \<Longrightarrow> gate_resume s = gate_resume t"
  by (simp add: same_init_def gate_resume_def gate_next_def next_error_def
      error_handler_installed_def split: promise.splits thrown.splits)

lemma delivered_request:
  "delivered (step cfg s (Request q)) =
     (if alive s \<and> \<not> early_route cfg q \<and> isInitialized s
      then delivered s @ [(q, RouteDispatch)] else delivered s)"
  by (simp add: gate_enter_def)

lemma delivered_resumed:
  "delivered (step cfg s (Resumed q)) =
     (if alive s \<and> q \<in> set (waiting s)
      then (case gate_resume s of None \<Rightarrow> delivered s | Some d \<Rightarrow> delivered s @ [(q, d)])
      else delivered s)"
  by (simp split: option.splits)

lemma delivered_settled: "delivered (step cfg s Settled) = delivered s"
  by (simp add: init_defs split: phase.splits option.splits)

lemma delivered_gate_resume:
  "(r, d) \<in> set (delivered (run cfg evs)) \<Longrightarrow> gate_resume (run cfg evs) = Some d"
proof (induction evs arbitrary: r d rule: rev_induct)
  case Nil
  then show ?case by (simp add: run_Nil boot_def)
next
  case (snoc ev evs)
  let ?s = "run cfg evs"
  show ?case
  proof (cases ev)
    case Settled
    show ?thesis
    proof (cases "phase ?s = Returned")
      case True
      then show ?thesis
        using snoc Settled by (simp add: run_snoc)
    next
      case False
      then have "gate_resume ?s = None"
        using run_promise_phase [of cfg evs] by (simp add: gate_resume_def)
      then have "delivered ?s = []"
        using snoc.IH by (cases "delivered ?s") auto
      then show ?thesis
        using snoc.prems Settled by (simp add: run_snoc delivered_settled del: step.simps)
    qed
  next
    case (Request q)
    have same: "gate_resume (step cfg ?s (Request q)) = gate_resume ?s"
      by (rule gate_resume_cong [OF step_request_same])
    show ?thesis
    proof (cases "isInitialized ?s")
      case True
      then have "gate_resume ?s = Some RouteDispatch"
        using run_isInitialized [of cfg evs] by (simp add: gate_resume_def)
      then show ?thesis
        using snoc Request True same
        by (auto simp: run_snoc delivered_request split: if_splits simp del: step.simps)
    next
      case False
      then show ?thesis
        using snoc Request same
        by (auto simp: run_snoc delivered_request split: if_splits simp del: step.simps)
    qed
  next
    case (Resumed q)
    have same: "gate_resume (step cfg ?s (Resumed q)) = gate_resume ?s"
      by (rule gate_resume_cong [OF step_resumed_same])
    show ?thesis
      using snoc Resumed same
      by (auto simp: run_snoc delivered_resumed split: option.splits if_splits
          simp del: step.simps)
  qed
qed

lemmas run_eval = run_def boot_def gate_enter_def gate_resume_def gate_next_def next_error_def
  error_handler_installed_def after_registerRoutes_def after_setupVite_def completed_def
  failed_def vercel_def Let_def

lemma production_not_development: "ascii ''production'' \<noteq> ascii ''development''"
  by (simp add: ascii_def)

text \<open>
  What the gate guarantees. A request leaves the gate only when the initialization has
  settled, and all requests leave it the same way: for any two requests, whenever they are
  delivered in the course of any sequence of events, the deliveries are equal; the delivery
  is route dispatch when the initialization succeeded, and otherwise it is what
  \<^verbatim>\<open>next\<close> makes of the one recorded failure.
\<close>

lemma gate_deliveries_agree:
  assumes "(r1, d1) \<in> set (delivered (run cfg evs))"
    and "(r2, d2) \<in> set (delivered (run cfg (evs @ evs')))"
  shows "initializationPromise (run cfg evs) \<noteq> Pending \<and> d2 = d1
    \<and> (case initializationPromise (run cfg evs) of
          Pending \<Rightarrow> False
        | Fulfilled \<Rightarrow> d1 = RouteDispatch
        | Rejected v \<Rightarrow> d1 = gate_next (run cfg evs) v)"
proof -
  have g1: "gate_resume (run cfg evs) = Some d1"
    using assms(1) by (rule delivered_gate_resume)
  then have settled: "initializationPromise (run cfg evs) \<noteq> Pending"
    by (auto simp: gate_resume_def)
  have "gate_resume (run cfg (evs @ evs')) = gate_resume (run cfg evs)"
    using settled by (intro gate_resume_cong settled_stable)
  moreover have "gate_resume (run cfg (evs @ evs')) = Some d2"
    using assms(2) by (rule delivered_gate_resume)
  ultimately have "d2 = d1"
    using g1 by simp
  then show ?thesis
    using g1 settled by (auto simp: gate_resume_def split: promise.splits)
qed

text \<open>
  No request is lost at the gate of a running process: a request that arrives either
  goes on at once or is suspended, and a suspended request that is resumed once the
  initialization has settled is delivered.
\<close>

lemma request_is_kept:
  assumes "alive s" and "\<not> early_route cfg r"
  shows "(if isInitialized s
          then delivered (step cfg s (Request r)) = delivered s @ [(r, RouteDispatch)]
             \<and> waiting (step cfg s (Request r)) = waiting s
          else waiting (step cfg s (Request r)) = waiting s @ [r]
             \<and> delivered (step cfg s (Request r)) = delivered s)"
  using assms by (simp add: gate_enter_def)

lemma waiting_request_leaves:
  assumes "alive s" and "r \<in> set (waiting s)" and "initializationPromise s \<noteq> Pending"
  shows "\<exists>d. gate_resume s = Some d
           \<and> delivered (step cfg s (Resumed r)) = delivered s @ [(r, d)]
           \<and> waiting (step cfg s (Resumed r)) = remove1 r (waiting s)"
  using assms by (cases "initializationPromise s") (simp_all add: gate_resume_def)

text \<open>
  A failure after the error handler has been installed (in \<^verbatim>\<open>setupVite\<close> or
  \<^verbatim>\<open>serveStatic\<close>) is translated for every request.
\<close>

lemma late_failure_translated:
  assumes "registerRoutes cfg = None"
    and "initializationPromise (run cfg evs) = Rejected (ErrorValue e)"
    and "(r, d) \<in> set (delivered (run cfg evs))"
  shows "d = ErrorHandler e"
proof -
  let ?k = "count_list evs Settled"
  have same: "same_init (run cfg evs) (settle cfg ?k)"
    by (rule run_same_init)
  have "initializationPromise (settle cfg ?k) = Rejected (ErrorValue e)"
    using same assms(2) by (simp add: same_init_def)
  then have "UseErrorHandler \<in> set (effects (settle cfg ?k))"
    using settle_cases [of cfg ?k] assms(1)
    by (auto simp: settle_defs split: option.splits if_splits simp del: step.simps)
  then have "error_handler_installed (run cfg evs)"
    using same by (simp add: same_init_def error_handler_installed_def)
  moreover have "gate_resume (run cfg evs) = Some d"
    using assms(3) by (rule delivered_gate_resume)
  ultimately show ?thesis
    using assms(2) by (simp add: gate_resume_def gate_next_def next_error_def)
qed

text \<open>
  Three ways in which a request escapes the rule above. A route that
  \<^verbatim>\<open>registerRoutes\<close> attaches during its call stands in front of the gate and
  answers while the initialization is pending (and whatever the initialization ends
  with); a rejection with a falsy value sends every request to route dispatch although
  the initialization has failed; and a rejection that no request awaits ends the process,
  so that a later request receives nothing.
\<close>

lemma early_route_not_gated:
  "initializationPromise
      (run (on_vercel\<lparr>registerRoutes := Some (ErrorValue boom), early_route := (\<lambda>r. r = 7)\<rparr>)
         [Request 7]) = Pending
   \<and> bypassed
      (run (on_vercel\<lparr>registerRoutes := Some (ErrorValue boom), early_route := (\<lambda>r. r = 7)\<rparr>)
         [Request 7]) = [(7, RouteDispatch)]
   \<and> delivered
      (run (on_vercel\<lparr>registerRoutes := Some (ErrorValue boom), early_route := (\<lambda>r. r = 7)\<rparr>)
         [Request 7, Request 1, Settled, Resumed 1]) = [(1, FinalHandler boom)]"
  by (simp add: run_eval on_vercel_def)

lemma falsy_rejection_dispatches:
  "initializationPromise
      (run (on_vercel\<lparr>registerRoutes := Some FalsyValue\<rparr>)
         [Request 1, Settled, Resumed 1, Request 2, Resumed 2]) = Rejected FalsyValue
   \<and> delivered
      (run (on_vercel\<lparr>registerRoutes := Some FalsyValue\<rparr>)
         [Request 1, Settled, Resumed 1, Request 2, Resumed 2])
      = [(1, RouteDispatch), (2, RouteDispatch)]"
  by (simp add: run_eval on_vercel_def)

lemma unhandled_rejection_ends_process:
  "\<not> alive (run (on_vercel\<lparr>registerRoutes := Some (ErrorValue boom)\<rparr>) [Settled])
   \<and> waiting (run (on_vercel\<lparr>registerRoutes := Some (ErrorValue boom)\<rparr>)
        [Settled, Request 1, Resumed 1]) = []
   \<and> delivered (run (on_vercel\<lparr>registerRoutes := Some (ErrorValue boom)\<rparr>)
        [Settled, Request 1, Resumed 1]) = []"
  by (simp add: run_eval on_vercel_def)

text \<open>
  Claim C1. The claim is that concurrent requests observe the same outcome of the
  initialization: all proceed to route dispatch, or all receive the same translated
  failure. The three requests below arrive while \<^verbatim>\<open>registerRoutes\<close> is pending
  and are resumed, in another order, after it has failed. All three leave the gate with
  the same recorded failure, but the error handler has not been installed, so the failure
  reaches the final handler of the framework: no request receives the translated failure.
\<close>

theorem concurrent_requests_untranslated:
  "delivered (run (on_vercel\<lparr>registerRoutes := Some (ErrorValue boom)\<rparr>)
       [Request 1, Request 2, Request 3, Settled, Resumed 2, Resumed 1, Resumed 3])
     = [(2, FinalHandler boom), (1, FinalHandler boom), (3, FinalHandler boom)]"
  by (simp add: run_eval on_vercel_def)

text \<open>
  Claim C2. The claim is that after a failed initialization every request receives the
  translated response. The error handler is installed only after
  \<^verbatim>\<open>registerRoutes\<close> has succeeded, so when \<^verbatim>\<open>registerRoutes\<close>
  fails the gate forwards the recorded failure to a stack that holds no error handler: the
  two requests below, one waiting and one arriving later, both end in the final handler of
  the framework and none is translated.
\<close>

theorem early_failure_reaches_final_handler:
  "delivered (run (on_vercel\<lparr>registerRoutes := Some (ErrorValue boom)\<rparr>)
       [Request 1, Settled, Resumed 1, Request 2, Resumed 2])
     = [(1, FinalHandler boom), (2, FinalHandler boom)]"
  by (simp add: run_eval on_vercel_def)

text \<open>
  Claim C8. Whatever requests arrive and in whatever order, with \<open>k\<close> the number of
  awaited promises that have settled: \<^verbatim>\<open>registerRoutes\<close> is called exactly once
  and at most one listener is bound; the steps made so far are a prefix of the order
  routes, error handler, wiring of the selected mode, namely the steps that the order
  allows to start after \<open>k\<close> completions; the promise is pending until the sequence has
  ended and then holds the outcome of the sequence; the flag is set exactly when the
  promise is fulfilled, and a fulfilled promise means that the whole sequence has run;
  once both awaits have settled the promise has settled; and once the promise has
  settled, the promise, the flag and the calls made never change again.
\<close>

theorem initialization_once:
  "count_list (effects (run cfg evs)) RegisterRoutes = 1
   \<and> length (filter is_listen (effects (run cfg evs))) \<le> 1
   \<and> prefix (filter is_step (effects (run cfg evs))) (spec_sequence cfg)
   \<and> (2 \<le> count_list evs Settled \<longrightarrow> initializationPromise (run cfg evs) \<noteq> Pending)
   \<and> (initializationPromise (run cfg evs) \<noteq> Pending \<longrightarrow>
        initializationPromise (run cfg (evs @ evs')) = initializationPromise (run cfg evs)
        \<and> isInitialized (run cfg (evs @ evs')) = isInitialized (run cfg evs)
        \<and> effects (run cfg (evs @ evs')) = effects (run cfg evs))
   \<and> filter is_step (effects (run cfg evs))
        = take (spec_steps_started cfg (count_list evs Settled)) (spec_sequence cfg)
   \<and> initializationPromise (run cfg evs)
        = (if count_list evs Settled < spec_awaits cfg then Pending else spec_outcome cfg)
   \<and> isInitialized (run cfg evs) = (initializationPromise (run cfg evs) = Fulfilled)
   \<and> (initializationPromise (run cfg evs) = Fulfilled \<longrightarrow>
        filter is_step (effects (run cfg evs)) = spec_sequence cfg)"
proof -
  let ?k = "count_list evs Settled"
  have same: "same_init (run cfg evs) (settle cfg ?k)"
    by (rule run_same_init)
  have a: "count_list (effects (run cfg evs)) RegisterRoutes = 1"
    using same settle_registerRoutes_once [of cfg ?k] by (simp add: same_init_def)
  have b: "length (filter is_listen (effects (run cfg evs))) \<le> 1"
    using same settle_listen_once [of cfg ?k] by (simp add: same_init_def)
  have c: "prefix (filter is_step (effects (run cfg evs))) (spec_sequence cfg)"
    using same settle_steps [of cfg ?k] by (simp add: same_init_def)
  have d: "2 \<le> ?k \<longrightarrow> initializationPromise (run cfg evs) \<noteq> Pending"
    using same settle_two [of ?k cfg] settle_promise_phase [of cfg ?k]
    by (simp add: same_init_def)
  have e: "initializationPromise (run cfg evs) \<noteq> Pending \<longrightarrow>
        initializationPromise (run cfg (evs @ evs')) = initializationPromise (run cfg evs)
        \<and> isInitialized (run cfg (evs @ evs')) = isInitialized (run cfg evs)
        \<and> effects (run cfg (evs @ evs')) = effects (run cfg evs)"
    using settled_stable [of cfg evs evs'] by (simp add: same_init_def)
  have f: "filter is_step (effects (run cfg evs))
        = take (spec_steps_started cfg ?k) (spec_sequence cfg)"
    using same settle_steps_started [of cfg ?k] by (simp add: same_init_def)
  have g: "initializationPromise (run cfg evs)
        = (if ?k < spec_awaits cfg then Pending else spec_outcome cfg)"
    using same settle_outcome [of cfg ?k] by (simp add: same_init_def)
  have h: "isInitialized (run cfg evs) = (initializationPromise (run cfg evs) = Fulfilled)"
    by (rule run_isInitialized)
  have i: "initializationPromise (run cfg evs) = Fulfilled \<longrightarrow>
        filter is_step (effects (run cfg evs)) = spec_sequence cfg"
    using same settle_fulfilled_full [of cfg ?k] by (simp add: same_init_def)
  show ?thesis
    by (rule conjI [OF a conjI [OF b conjI [OF c conjI [OF d conjI [OF e
          conjI [OF f conjI [OF g conjI [OF h i]]]]]]]])
qed

theorem initialization_once_witness:
  "count_list (effects (run local_dev [Request 1, Settled, Request 2, Settled])) RegisterRoutes = 1
   \<and> filter is_step (effects (run local_dev [Request 1, Settled, Request 2, Settled]))
        = spec_sequence local_dev
   \<and> initializationPromise
        (run local_dev ([Request 1, Settled, Request 2, Settled] @ [Settled, Resumed 1, Settled]))
        = Fulfilled
   \<and> effects
        (run local_dev ([Request 1, Settled, Request 2, Settled] @ [Settled, Resumed 1, Settled]))
        = effects (run local_dev [Request 1, Settled, Request 2, Settled])
   \<and> filter is_step (effects (run on_vercel [Request 1, Settled]))
        = [RegisterRoutes, UseErrorHandler, ServeStatic]
   \<and> isInitialized (run on_vercel ([Request 1, Settled] @ [Resumed 1, Settled, Request 2]))
   \<and> initializationPromise
        (run (local_dev\<lparr>setupVite := Some (ErrorValue boom)\<rparr>)
           ([Request 1, Settled, Settled] @ [Resumed 1, Settled, Request 2]))
        = Rejected (ErrorValue boom)
   \<and> filter is_step
        (effects (run (local_dev\<lparr>setupVite := Some (ErrorValue boom)\<rparr>)
           ([Request 1, Settled, Settled] @ [Resumed 1, Settled, Request 2])))
        = [RegisterRoutes, UseErrorHandler, CreateServer, SetupVite]"
proof -
  let ?evs = "[Request 1, Settled, Request 2, Settled]"
  let ?more = "[Settled, Resumed 1, Settled]"
  let ?once = "[Request 1, Settled]"
  let ?later = "[Resumed 1, Settled, Request 2]"
  let ?bad = "local_dev\<lparr>setupVite := Some (ErrorValue boom)\<rparr>"
  let ?twice = "[Request 1, Settled, Settled]"
  note dev = initialization_once [of local_dev ?evs ?more]
  note prod = initialization_once [of on_vercel ?once ?later]
  note bad = initialization_once [of ?bad ?twice ?later]
  have twice: "2 \<le> count_list ?evs Settled"
    by simp
  have settled: "initializationPromise (run local_dev ?evs) = Fulfilled"
    by (simp add: run_eval local_dev_def)
  have w1: "count_list (effects (run local_dev ?evs)) RegisterRoutes = 1"
    by (rule dev [THEN conjunct1])
  have w2: "filter is_step (effects (run local_dev ?evs)) = spec_sequence local_dev"
    by (rule dev [THEN conjunct2, THEN conjunct2, THEN conjunct2, THEN conjunct2,
          THEN conjunct2, THEN conjunct2, THEN conjunct2, THEN conjunct2, THEN mp, OF settled])
  have pending: "initializationPromise (run local_dev ?evs) \<noteq> Pending"
    by (rule dev [THEN conjunct2, THEN conjunct2, THEN conjunct2, THEN conjunct1, THEN mp,
          OF twice])
  note stable = dev [THEN conjunct2, THEN conjunct2, THEN conjunct2, THEN conjunct2,
      THEN conjunct1, THEN mp, OF pending]
  have w3: "initializationPromise (run local_dev (?evs @ ?more)) = Fulfilled"
    using stable [THEN conjunct1] settled by (simp only:)
  have w4: "effects (run local_dev (?evs @ ?more)) = effects (run local_dev ?evs)"
    by (rule stable [THEN conjunct2, THEN conjunct2])
  have prod_done: "initializationPromise (run on_vercel ?once) = Fulfilled"
    by (simp add: run_eval on_vercel_def production_not_development)
  have prod_seq: "spec_sequence on_vercel = [RegisterRoutes, UseErrorHandler, ServeStatic]"
    by (simp add: spec_sequence_def spec_wiring_def on_vercel_def production_not_development)
  have w5: "filter is_step (effects (run on_vercel ?once))
      = [RegisterRoutes, UseErrorHandler, ServeStatic]"
    using prod [THEN conjunct2, THEN conjunct2, THEN conjunct2, THEN conjunct2,
          THEN conjunct2, THEN conjunct2, THEN conjunct2, THEN conjunct2, THEN mp, OF prod_done]
    by (simp only: prod_seq)
  have prod_settled: "initializationPromise (run on_vercel ?once) \<noteq> Pending"
    by (simp only: prod_done) simp
  have prod_flag: "isInitialized (run on_vercel ?once)"
    using prod [THEN conjunct2, THEN conjunct2, THEN conjunct2, THEN conjunct2,
          THEN conjunct2, THEN conjunct2, THEN conjunct2, THEN conjunct1] prod_done
    by (simp only:)
  have w6: "isInitialized (run on_vercel (?once @ ?later))"
    using prod [THEN conjunct2, THEN conjunct2, THEN conjunct2, THEN conjunct2,
          THEN conjunct1, THEN mp, OF prod_settled, THEN conjunct2, THEN conjunct1] prod_flag
    by (simp only:)
  have bad_twice: "2 \<le> count_list ?twice Settled"
    by simp
  have bad_settled: "initializationPromise (run ?bad ?twice) \<noteq> Pending"
    by (rule bad [THEN conjunct2, THEN conjunct2, THEN conjunct2, THEN conjunct1, THEN mp,
          OF bad_twice])
  have bad_outcome: "initializationPromise (run ?bad ?twice) = Rejected (ErrorValue boom)"
    by (simp add: run_eval local_dev_def)
  have bad_steps: "filter is_step (effects (run ?bad ?twice))
      = [RegisterRoutes, UseErrorHandler, CreateServer, SetupVite]"
    by (simp add: run_eval local_dev_def is_step_def)
  note bad_stable = bad [THEN conjunct2, THEN conjunct2, THEN conjunct2, THEN conjunct2,
      THEN conjunct1, THEN mp, OF bad_settled]
  have w7: "initializationPromise (run ?bad (?twice @ ?later)) = Rejected (ErrorValue boom)"
    using bad_stable [THEN conjunct1] bad_outcome by (simp only:)
  have w8: "filter is_step (effects (run ?bad (?twice @ ?later)))
      = [RegisterRoutes, UseErrorHandler, CreateServer, SetupVite]"
    using bad_stable [THEN conjunct2, THEN conjunct2] bad_steps by (simp only:)
  show ?thesis
    by (rule conjI [OF w1 conjI [OF w2 conjI [OF w3 conjI [OF w4 conjI [OF w5
          conjI [OF w6 conjI [OF w7 w8]]]]]]])
qed

text \<open>
  Claim C9, as amended. A listener is bound exactly when \<^verbatim>\<open>VERCEL\<close> is unset or
  empty, the environment is \<^verbatim>\<open>development\<close>, the route registration and the
  set-up of the development assets have both completed without failure; it is then bound
  once, on host \<^verbatim>\<open>localhost\<close> and port 5000, with a callback that logs the
  readiness line. In particular no listener is bound under any environment when
  \<^verbatim>\<open>VERCEL\<close> is set. The module exports the serverless handler when
  \<^verbatim>\<open>VERCEL\<close> is set and the application otherwise.
\<close>

theorem listener_binding:
  "filter is_listen (effects (run cfg evs)) =
     (if \<not> vercel cfg \<and> env cfg = ascii ''development'' \<and> registerRoutes cfg = None
          \<and> setupVite cfg = None \<and> 2 \<le> count_list evs Settled
      then [Listen 5000 (ascii ''localhost'') (ascii ''Server running at http://localhost:5000'')]
      else [])
   \<and> default_export cfg = (if vercel cfg then Serverless else App)"
proof -
  let ?k = "count_list evs Settled"
  have eff: "effects (run cfg evs) = effects (settle cfg ?k)"
    using run_same_init [of cfg evs] by (simp add: same_init_def)
  have "filter is_listen (effects (settle cfg ?k)) =
     (if \<not> vercel cfg \<and> env cfg = ascii ''development'' \<and> registerRoutes cfg = None
          \<and> setupVite cfg = None \<and> 2 \<le> ?k
      then [Listen 5000 (ascii ''localhost'') (ascii ''Server running at http://localhost:5000'')]
      else [])"
    using settle_cases [of cfg ?k]
    by (auto simp: settle_defs is_listen_def split: option.splits if_splits
        simp del: step.simps)
  then show ?thesis
    by (simp add: eff default_export_def)
qed

theorem listener_binding_witness:
  "filter is_listen (effects (run on_vercel [Settled, Request 1, Settled])) = []
   \<and> default_export on_vercel = Serverless
   \<and> filter is_listen (effects (run local_dev [Settled, Request 1, Settled]))
        = [Listen 5000 (ascii ''localhost'') (ascii ''Server running at http://localhost:5000'')]
   \<and> default_export local_dev = App"
proof -
  have v: "vercel on_vercel"
    by (simp add: vercel_def on_vercel_def ascii_def)
  have d: "\<not> vercel local_dev \<and> env local_dev = ascii ''development''
      \<and> registerRoutes local_dev = None \<and> setupVite local_dev = None
      \<and> 2 \<le> count_list [Settled, Request 1, Settled] Settled"
    by (simp add: vercel_def local_dev_def)
  show ?thesis
    using listener_binding [of on_vercel "[Settled, Request 1, Settled]"]
      listener_binding [of local_dev "[Settled, Request 1, Settled]"] v d
    by simp
qed

text \<open>
  Claim C9 as stated fails: in development and without \<^verbatim>\<open>VERCEL\<close>, a failed
  route registration ends the initialization before any listener is bound.
\<close>

theorem no_listener_after_failed_registration:
  "\<not> vercel (local_dev\<lparr>registerRoutes := Some (ErrorValue boom)\<rparr>)
   \<and> env (local_dev\<lparr>registerRoutes := Some (ErrorValue boom)\<rparr>) = ascii ''development''
   \<and> initializationPromise
        (run (local_dev\<lparr>registerRoutes := Some (ErrorValue boom)\<rparr>) [Settled, Settled])
       = Rejected (ErrorValue boom)
   \<and> filter is_listen
        (effects (run (local_dev\<lparr>registerRoutes := Some (ErrorValue boom)\<rparr>)
           [Settled, Settled])) = []"
  by (simp add: run_eval local_dev_def is_listen_def)

end
